theory Spec2Isabelle
  imports Complex_Main "HOL-Library.AList"
begin

section \<open>Python values, exceptions and outcomes\<close>

text \<open>
  Values that can be written to and read from a JSON file. Python \<open>int\<close> is unbounded
  (\<open>JInt\<close>); a Python \<open>float\<close> is idealised as a real number (\<open>JFloat\<close>; NaN and the
  infinities are outside the model). A \<open>dict\<close> keeps its insertion order, so it is an
  association list.
\<close>

datatype json =
    JNull
  | JBool bool
  | JInt int
  | JFloat real
  | JString string
  | JArray "json list"
  | JObject "(string \<times> json) list"

text \<open>The exceptions the modelled code can raise; all of them derive from \<open>Exception\<close>.\<close>

datatype py_error =
    ValueError string
  | TypeError string
  | KeyError string
  | IndexError string
  | AttributeError string
  | ZeroDivisionError
  | RuntimeError string
  | UnboundLocalError string
  | FileNotFoundError
  | PermissionError
  | JSONDecodeError
  | ValidationError

text \<open>
  A statement sequence either runs to its end (\<open>Done\<close>) or is left by an exception
  (\<open>Raised\<close>); in both cases the mutations made so far are kept in the state.
\<close>

datatype 's outcome = Done 's | Raised py_error 's

fun state_of :: "'s outcome \<Rightarrow> 's" where
  "state_of (Done s) = s"
| "state_of (Raised e s) = s"

fun returned :: "'s outcome \<Rightarrow> bool" where
  "returned (Done s) = True"
| "returned (Raised e s) = False"

fun and_then :: "'s outcome \<Rightarrow> ('s \<Rightarrow> 's outcome) \<Rightarrow> 's outcome" where
  "and_then (Done s) f = f s"
| "and_then (Raised e s) f = Raised e s"

definition endswith :: "string \<Rightarrow> string \<Rightarrow> bool" where
  "endswith s suf = (length suf \<le> length s \<and> drop (length s - length suf) s = suf)"

text \<open>Python slicing \<open>xs[start:stop]\<close> (step 1), with \<open>None\<close> and negative bounds.\<close>

type_synonym slice = "int option \<times> int option"

definition slice_index :: "nat \<Rightarrow> int \<Rightarrow> nat" where
  "slice_index n i = (if i < 0 then nat (max (i + int n) 0) else min (nat i) n)"

definition py_slice :: "slice \<Rightarrow> 'a list \<Rightarrow> 'a list" where
  "py_slice sl xs =
     (let n = length xs;
          a = (case fst sl of None \<Rightarrow> 0 | Some i \<Rightarrow> slice_index n i);
          b = (case snd sl of None \<Rightarrow> n | Some j \<Rightarrow> slice_index n j)
      in take (b - a) (drop a xs))"

section \<open>Naive datetimes\<close>

record datetime =
  year :: nat
  month :: nat
  day :: nat
  hour :: nat
  minute :: nat
  second :: nat
  microsecond :: nat

definition is_leap :: "nat \<Rightarrow> bool" where
  "is_leap y = (y mod 4 = 0 \<and> (y mod 100 \<noteq> 0 \<or> y mod 400 = 0))"

definition days_in_month :: "nat \<Rightarrow> nat \<Rightarrow> nat" where
  "days_in_month y m =
     (if m = 2 then (if is_leap y then 29 else 28)
      else if m = 4 \<or> m = 6 \<or> m = 9 \<or> m = 11 then 30 else 31)"

text \<open>The range checks of the \<open>datetime\<close> constructor.\<close>

definition valid_datetime :: "datetime \<Rightarrow> bool" where
  "valid_datetime d =
     (1 \<le> year d \<and> year d \<le> 9999 \<and> 1 \<le> month d \<and> month d \<le> 12 \<and>
      1 \<le> day d \<and> day d \<le> days_in_month (year d) (month d) \<and>
      hour d < 24 \<and> minute d < 60 \<and> second d < 60 \<and> microsecond d < 1000000)"

definition days_before_year :: "nat \<Rightarrow> nat" where
  "days_before_year y = (y - 1) * 365 + (y - 1) div 4 - (y - 1) div 100 + (y - 1) div 400"

definition days_before_month :: "nat \<Rightarrow> nat \<Rightarrow> nat" where
  "days_before_month y m =
     [0, 31, 59, 90, 120, 151, 181, 212, 243, 273, 304, 334] ! (m - 1) +
     (if m > 2 \<and> is_leap y then 1 else 0)"

definition ymd2ord :: "nat \<Rightarrow> nat \<Rightarrow> nat \<Rightarrow> nat" where
  "ymd2ord y m d = days_before_year y + days_before_month y m + d"

text \<open>Microseconds since the start of the proleptic calendar: the scale on which two
  datetimes are subtracted.\<close>

definition dt_micros :: "datetime \<Rightarrow> int" where
  "dt_micros d =
     int ((((ymd2ord (year d) (month d) (day d) * 24 + hour d) * 60 + minute d) * 60
            + second d) * 1000000 + microsecond d)"

text \<open>\<open>(a - b).total_seconds()\<close>.\<close>

definition total_seconds :: "datetime \<Rightarrow> datetime \<Rightarrow> real" where
  "total_seconds a b = real_of_int (dt_micros a - dt_micros b) / 1000000"

definition digit_char :: "nat \<Rightarrow> char" where
  "digit_char d = ''0123456789'' ! d"

definition zpad2 :: "nat \<Rightarrow> string" where
  "zpad2 n = [digit_char (n div 10 mod 10), digit_char (n mod 10)]"

definition zpad4 :: "nat \<Rightarrow> string" where
  "zpad4 n = zpad2 (n div 100) @ zpad2 n"

definition zpad6 :: "nat \<Rightarrow> string" where
  "zpad6 n = zpad2 (n div 10000) @ zpad4 n"

text \<open>\<open>d.isoformat(sep)\<close>: the fraction is printed only when it is not zero.\<close>

definition isoformat_sep :: "char \<Rightarrow> datetime \<Rightarrow> string" where
  "isoformat_sep sep d =
     zpad4 (year d) @ ''-'' @ zpad2 (month d) @ ''-'' @ zpad2 (day d) @ [sep] @
     zpad2 (hour d) @ '':'' @ zpad2 (minute d) @ '':'' @ zpad2 (second d) @
     (if microsecond d = 0 then [] else ''.'' @ zpad6 (microsecond d))"

definition isoformat :: "datetime \<Rightarrow> string" where
  "isoformat d = isoformat_sep (CHR ''T'') d"

text \<open>\<open>str(d)\<close> is \<open>d.isoformat(sep=' ')\<close>.\<close>

definition str_datetime :: "datetime \<Rightarrow> string" where
  "str_datetime d = isoformat_sep (CHR '' '') d"

text \<open>\<open>d.strftime("%Y%m%d-%H%M%S")\<close>.\<close>

definition strftime_stamp :: "datetime \<Rightarrow> string" where
  "strftime_stamp d =
     zpad4 (year d) @ zpad2 (month d) @ zpad2 (day d) @ ''-'' @
     zpad2 (hour d) @ zpad2 (minute d) @ zpad2 (second d)"

definition digit_val :: "char \<Rightarrow> nat option" where
  "digit_val c = map_of (zip ''0123456789'' [0, 1, 2, 3, 4, 5, 6, 7, 8, 9]) c"

fun parse_digits :: "nat \<Rightarrow> string \<Rightarrow> nat option" where
  "parse_digits acc [] = Some acc"
| "parse_digits acc (c # cs) =
     (case digit_val c of None \<Rightarrow> None | Some v \<Rightarrow> parse_digits (acc * 10 + v) cs)"

definition parse_nat :: "string \<Rightarrow> nat option" where
  "parse_nat s = (if s = [] then None else parse_digits 0 s)"

text \<open>
  \<open>datetime.fromisoformat\<close> on a naive datetime string: a date \<open>YYYY-MM-DD\<close>, then
  optionally one separator character and a time \<open>HH[:MM[:SS[.fff[fff]]]]\<close>. This is
  the grammar of Python up to 3.10, which every later version accepts as well; the
  further forms that Python 3.11 added (a fraction of any length, basic format, week
  dates) are rejected here. Strings with a UTC offset denote aware datetimes and are
  outside the model.
\<close>

definition parse_time :: "string \<Rightarrow> (nat \<times> nat \<times> nat \<times> nat) option" where
  "parse_time s =
     (let n = length s;
          hh = parse_nat (take 2 s);
          mm = (if n \<ge> 5 then parse_nat (take 2 (drop 3 s)) else Some 0);
          ss = (if n \<ge> 8 then parse_nat (take 2 (drop 6 s)) else Some 0);
          us = (if n = 12 then map_option (\<lambda>k. k * 1000) (parse_nat (drop 9 s))
                else if n = 15 then parse_nat (drop 9 s) else Some 0);
          seps = ((n \<ge> 5 \<longrightarrow> s ! 2 = CHR '':'') \<and> (n \<ge> 8 \<longrightarrow> s ! 5 = CHR '':'') \<and>
                  (n \<ge> 12 \<longrightarrow> s ! 8 = CHR ''.''))
      in if n \<notin> {2, 5, 8, 12, 15} \<or> \<not> seps then None
         else (case (hh, mm, ss, us) of
                 (Some h, Some m, Some sec, Some u) \<Rightarrow> Some (h, m, sec, u)
               | _ \<Rightarrow> None))"

definition fromisoformat :: "string \<Rightarrow> py_error + datetime" where
  "fromisoformat s =
     (let bad = Inl (ValueError ''Invalid isoformat string'') in
      if length s < 10 \<or> length s = 11 \<or> s ! 4 \<noteq> CHR ''-'' \<or> s ! 7 \<noteq> CHR ''-'' then bad
      else
        (case (parse_nat (take 4 s), parse_nat (take 2 (drop 5 s)),
               parse_nat (take 2 (drop 8 s)),
               (if length s = 10 then Some (0, 0, 0, 0) else parse_time (drop 11 s))) of
           (Some y, Some m, Some d, Some (h, mi, sec, u)) \<Rightarrow>
             (let r = \<lparr>year = y, month = m, day = d, hour = h, minute = mi,
                       second = sec, microsecond = u\<rparr>
              in if valid_datetime r then Inr r else bad)
         | _ \<Rightarrow> bad))"

section \<open>The world outside the process: files and the log\<close>

text \<open>
  A path is a directory and a file name in it (\<open>os.path.join(dir, name)\<close>,
  \<open>dir / name\<close>). A file's content is kept in parsed form: the JSON value that
  \<open>json.load\<close> would return, the table a CSV reader would return, the track points of a
  GPX document, or text that is none of these.
\<close>

type_synonym path = "string \<times> string"

record trkpt =
  lat :: json
  lon :: json
  ele :: "json option"
  time :: string

datatype file_content =
    JsonDoc json
  | CsvDoc "string list" "json list list"
  | GpxDoc "trkpt list"
  | Unparsable string

record disk_file =
  mtime :: int
  content :: file_content

datatype log_level = INFO | WARNING | CRITICAL

text \<open>
  \<open>dirs\<close> are the directories that exist, \<open>files\<close> the directory entries in listing
  order, \<open>protected\<close> the paths the operating system refuses to overwrite or unlink.
\<close>

record world =
  dirs :: "string list"
  files :: "(path \<times> disk_file) list"
  protected :: "path list"
  log :: "(log_level \<times> string) list"

definition logmsg :: "log_level \<Rightarrow> string \<Rightarrow> world \<Rightarrow> world" where
  "logmsg lvl msg w = w\<lparr>log := log w @ [(lvl, msg)]\<rparr>"

text \<open>\<open>os.path.join(d, s)\<close> for a directory path.\<close>

definition path_join :: "string \<Rightarrow> string \<Rightarrow> string" where
  "path_join d s =
     (if s \<noteq> [] \<and> hd s = CHR ''/'' then s
      else if d = [] \<or> last d = CHR ''/'' then d @ s
      else d @ ''/'' @ s)"

definition path_exists :: "path \<Rightarrow> world \<Rightarrow> bool" where
  "path_exists p w = (map_of (files w) p \<noteq> None)"

text \<open>\<open>open(p, 'w')\<close> followed by writing the whole content and closing.\<close>

definition write_file :: "path \<Rightarrow> file_content \<Rightarrow> datetime \<Rightarrow> world \<Rightarrow> world outcome" where
  "write_file p c now w =
     (if fst p \<notin> set (dirs w) then Raised FileNotFoundError w
      else if p \<in> set (protected w) then Raised PermissionError w
      else Done (w\<lparr>files := AList.update p \<lparr>mtime = dt_micros now, content = c\<rparr> (files w)\<rparr>))"

definition os_remove :: "path \<Rightarrow> world \<Rightarrow> world outcome" where
  "os_remove p w =
     (if \<not> path_exists p w then Raised FileNotFoundError w
      else if p \<in> set (protected w) then Raised PermissionError w
      else Done (w\<lparr>files := AList.delete p (files w)\<rparr>))"

definition makedirs :: "string \<Rightarrow> world \<Rightarrow> world" where
  "makedirs d w = (if d \<in> set (dirs w) then w else w\<lparr>dirs := dirs w @ [d]\<rparr>)"

text \<open>\<open>glob.glob(os.path.join(d, "*" + suf))\<close>: hidden names are not matched. The
  directory \<open>d\<close> is taken literally: a directory name with one of the characters
  \<open>*\<close>, \<open>?\<close> and \<open>[\<close>, which \<open>glob\<close> reads as a pattern, is outside the model.\<close>

definition glob_glob :: "string \<Rightarrow> string \<Rightarrow> world \<Rightarrow> (path \<times> disk_file) list" where
  "glob_glob d suf w =
     filter (\<lambda>(p, f). fst p = d \<and> endswith (snd p) suf \<and> \<not> (snd p \<noteq> [] \<and> hd (snd p) = CHR ''.''))
       (files w)"

text \<open>\<open>Path(d).glob("*" + suf)\<close>: hidden names are matched as well.\<close>

definition path_glob :: "string \<Rightarrow> string \<Rightarrow> world \<Rightarrow> (path \<times> disk_file) list" where
  "path_glob d suf w = filter (\<lambda>(p, f). fst p = d \<and> endswith (snd p) suf) (files w)"

section \<open>Data points and exporters (track.py)\<close>

record datapoint =
  timestamp :: datetime
  input_data :: "(string \<times> json) list"

text \<open>
  Attribute lookup on a \<open>DataPoint\<close> instance, for the data attributes the dataclass
  declares: any other name raises \<open>AttributeError\<close>.
\<close>

datatype attr_value = AttrDatetime datetime | AttrDict "(string \<times> json) list"

definition datapoint_getattr :: "datapoint \<Rightarrow> string \<Rightarrow> py_error + attr_value" where
  "datapoint_getattr dp name =
     (if name = ''timestamp'' then Inr (AttrDatetime (timestamp dp))
      else if name = ''input_data'' then Inr (AttrDict (input_data dp))
      else Inl (AttributeError name))"

text \<open>
  \<open>asdict(dp)\<close> as \<open>json.dump(..., default=str)\<close> writes it: the timestamp, which is
  not serialisable, goes through \<open>str\<close>.
\<close>

definition asdict_json :: "datapoint \<Rightarrow> json" where
  "asdict_json dp =
     JObject [(''timestamp'', JString (str_datetime (timestamp dp))),
              (''input_data'', JObject (input_data dp))]"

definition select_interval :: "slice option \<Rightarrow> 'a list \<Rightarrow> 'a list" where
  "select_interval interval dps = (case interval of None \<Rightarrow> dps | Some sl \<Rightarrow> py_slice sl dps)"

text \<open>
  An exporter gets the data points, the file path and the interval; \<open>now\<close> is the time
  the operating system stamps on the written file. \<open>data_points\<close> is a list here, so
  the \<open>data_points is None\<close> guard of the source never fires.
\<close>

type_synonym exporter = "datapoint list \<Rightarrow> path \<Rightarrow> slice option \<Rightarrow> datetime \<Rightarrow> world \<Rightarrow> world outcome"

definition export_to_json :: exporter where
  "export_to_json dps filename interval now w =
     (let data_points_to_export = select_interval interval dps
      in write_file filename (JsonDoc (JArray (map asdict_json data_points_to_export))) now w)"

text \<open>One CSV row: \<open>{'timestamp': ..., **point.input_data}\<close> written by a
  \<open>DictWriter\<close>, which rejects keys outside its field names and fills missing ones
  with the empty string.\<close>

definition csv_rowdict :: "datapoint \<Rightarrow> (string \<times> json) list" where
  "csv_rowdict point =
     fold (\<lambda>(k, v) row. AList.update k v row) (input_data point)
       [(''timestamp'', JString (isoformat (timestamp point)))]"

definition csv_row :: "string list \<Rightarrow> datapoint \<Rightarrow> py_error + json list" where
  "csv_row fieldnames point =
     (let row = csv_rowdict point in
      if \<exists>k \<in> set (map fst row). k \<notin> set fieldnames
      then Inl (ValueError ''dict contains fields not in fieldnames'')
      else Inr (map (\<lambda>k. case map_of row k of Some v \<Rightarrow> v | None \<Rightarrow> JString []) fieldnames))"

fun csv_rows :: "string list \<Rightarrow> datapoint list \<Rightarrow> json list list \<Rightarrow> py_error option \<times> json list list" where
  "csv_rows fieldnames [] acc = (None, acc)"
| "csv_rows fieldnames (point # points) acc =
     (case csv_row fieldnames point of
        Inl e \<Rightarrow> (Some e, acc)
      | Inr r \<Rightarrow> csv_rows fieldnames points (acc @ [r]))"

text \<open>\<open>Track.save\<close> never passes \<open>field_names\<close>, so they are taken from the first
  exported point; the rows written before a rejected row stay in the file.\<close>

definition export_to_csv :: exporter where
  "export_to_csv dps filename interval now w =
     (let data_points_to_export = select_interval interval dps in
      case data_points_to_export of
        [] \<Rightarrow> Raised (IndexError ''list index out of range'') w
      | first # _ \<Rightarrow>
          (let fieldnames = ''timestamp'' # map fst (input_data first);
               (err, rows) = csv_rows fieldnames data_points_to_export []
           in case write_file filename (CsvDoc fieldnames rows) now w of
                Raised e w' \<Rightarrow> Raised e w'
              | Done w' \<Rightarrow> (case err of None \<Rightarrow> Done w' | Some e \<Rightarrow> Raised e w')))"

definition first_key :: "(string \<Rightarrow> bool) \<Rightarrow> (string \<times> json) list \<Rightarrow> string option" where
  "first_key P d = find P (map fst d)"

text \<open>\<open>d.get(key)\<close> where the key may be \<open>None\<close>; an absent key and a stored
  \<open>None\<close> both give \<open>None\<close>.\<close>

definition dict_get :: "(string \<times> json) list \<Rightarrow> string option \<Rightarrow> json" where
  "dict_get d key =
     (case key of None \<Rightarrow> JNull
      | Some k \<Rightarrow> (case map_of d k of None \<Rightarrow> JNull | Some v \<Rightarrow> v))"

definition gpx_point :: "datapoint \<Rightarrow> trkpt option" where
  "gpx_point dp =
     (let d = input_data dp;
          lat_key = first_key (\<lambda>k. endswith k ''lat'') d;
          lon_key = first_key (\<lambda>k. endswith k ''lon'' \<or> endswith k ''long'') d;
          la = dict_get d lat_key;
          lo = dict_get d lon_key
      in if la = JNull \<or> lo = JNull then None
         else
           (let alt_key = first_key (\<lambda>k. endswith k ''alt'' \<or> endswith k ''elev'' \<or> endswith k ''altitude'') d;
                alt = dict_get d alt_key
            in Some \<lparr>lat = la, lon = lo, ele = (if alt = JNull then None else Some alt),
                     time = isoformat (timestamp dp)\<rparr>))"

definition export_to_gpx :: exporter where
  "export_to_gpx dps filename interval now w =
     (let data_points_to_export = select_interval interval dps
      in write_file filename (GpxDoc (List.map_filter gpx_point data_points_to_export)) now w)"

definition export_methods :: "(string \<times> exporter) list" where
  "export_methods = [(''json'', export_to_json), (''csv'', export_to_csv), (''gpx'', export_to_gpx)]"

section \<open>The recorder (class Track)\<close>

record track =
  data_points :: "datapoint list"
  field_names :: "string list option"
  mode :: string
  save_mode :: string
  checkpoint_interval :: "real option"
  max_checkpoint_files :: int
  output_dir :: string
  trim_fraction :: real
  max_datapoints :: real
  preprocessors :: "(datapoint \<Rightarrow> datapoint) list"
  replay_index :: nat
  last_checkpoint :: "datetime option"
  save_interval_start :: "int option"
  checkpoint_dir :: string

text \<open>\<open>Track.__init__\<close>; \<open>None\<close> for \<open>data_points\<close> and \<open>output_dir\<close> selects the
  defaults.\<close>

definition track_init ::
  "datapoint list option \<Rightarrow> string list option \<Rightarrow> string \<Rightarrow> string \<Rightarrow> real option \<Rightarrow> int \<Rightarrow>
   real \<Rightarrow> real \<Rightarrow> string option \<Rightarrow> world \<Rightarrow> track \<times> world" where
  "track_init dps fnames md smode interval max_files trim max_dp out w =
     (let odir = (case out of None \<Rightarrow> ''data'' | Some d \<Rightarrow> d);
          cdir = path_join odir ''chk''
      in (\<lparr>data_points = (case dps of None \<Rightarrow> [] | Some xs \<Rightarrow> xs),
           field_names = fnames, mode = md, save_mode = smode,
           checkpoint_interval = interval, max_checkpoint_files = max_files,
           output_dir = odir, trim_fraction = trim, max_datapoints = max_dp,
           preprocessors = [], replay_index = 0, last_checkpoint = None,
           save_interval_start = None, checkpoint_dir = cdir\<rparr>,
          logmsg INFO ''checkpoint directory'' (logmsg INFO ''output directory''
            (logmsg INFO ''-------------Track-------------''
              (makedirs cdir (makedirs odir w))))))"

text \<open>
  The \<open>file_format\<close> argument of \<open>save\<close>. It is documented as a string or a callable,
  but Python passes any object. What \<open>save\<close> does with it depends on three things only:
  whether it is a string, whether it is callable, and whether it is hashable. A string
  is always hashable; a function is, a callable object whose class sets
  \<open>__hash__ = None\<close> is not; of the remaining objects \<open>None\<close> and numbers are hashable,
  lists and dictionaries are not. The flag of \<open>FormatCallable\<close> and of \<open>FormatOther\<close>
  says whether the object is hashable.
\<close>

datatype file_format = FormatName string | FormatCallable bool exporter | FormatOther bool

fun hashable :: "file_format \<Rightarrow> bool" where
  "hashable (FormatName fmt) = True"
| "hashable (FormatCallable h f) = h"
| "hashable (FormatOther h) = h"

text \<open>
  The body of the \<open>try\<close> block of \<open>save\<close>. With anything but a string,
  \<open>fname + '.' + file_format\<close> raises \<open>TypeError\<close> before the exporter is called
  (objects that define \<open>__radd__\<close> to accept a string are outside the model); with an
  unregistered name the local variable \<open>export\<close> was never bound.
\<close>

definition save_try :: "track \<Rightarrow> file_format \<Rightarrow> string \<Rightarrow> string \<Rightarrow> slice option \<Rightarrow> datetime \<Rightarrow> world \<Rightarrow> world outcome" where
  "save_try t ff fname odir interval now w =
     (case ff of
        FormatCallable h f \<Rightarrow> Raised (TypeError ''can only concatenate str to str'') w
      | FormatOther h \<Rightarrow> Raised (TypeError ''can only concatenate str to str'') w
      | FormatName fmt \<Rightarrow>
          (case map_of export_methods fmt of
             None \<Rightarrow> Raised (UnboundLocalError ''export'') w
           | Some export \<Rightarrow>
               and_then (export (data_points t) (odir, fname @ ''.'' @ fmt) interval now w)
                 (\<lambda>w'. Done (logmsg INFO ''saving track'' w'))))"

text \<open>
  \<open>save\<close>. The membership test \<open>file_format in self.export_methods\<close> hashes the
  argument and stands before the \<open>try\<close>: the \<open>TypeError\<close> of an unhashable argument is
  not caught. Everything raised inside the \<open>try\<close> is caught and logged.
\<close>

definition save :: "track \<Rightarrow> file_format \<Rightarrow> string option \<Rightarrow> string option \<Rightarrow> slice option \<Rightarrow> datetime \<Rightarrow> world \<Rightarrow> world outcome" where
  "save t ff fname_opt odir_opt interval now w =
     (let fname = (case fname_opt of None \<Rightarrow> strftime_stamp now | Some f \<Rightarrow> f);
          odir = (case odir_opt of None \<Rightarrow> output_dir t | Some d \<Rightarrow> d)
      in if \<not> hashable ff then Raised (TypeError ''unhashable type'') w
         else
           (let w1 = (case ff of
                        FormatName fmt \<Rightarrow>
                          (if map_of export_methods fmt \<noteq> None then w
                           else logmsg CRITICAL ''unsupported file format'' w)
                      | FormatCallable h f \<Rightarrow> w
                      | FormatOther h \<Rightarrow> logmsg CRITICAL ''unsupported file format'' w)
            in case save_try t ff fname odir interval now w1 of
                 Done w2 \<Rightarrow> Done w2
               | Raised e w2 \<Rightarrow> Done (logmsg CRITICAL ''error in saving track'' w2)))"

text \<open>\<open>Track.load\<close>: the file must exist, hold JSON, and every element must have a
  string \<open>timestamp\<close> in ISO format and a dictionary \<open>input_data\<close>.\<close>

definition load_datapoint :: "json \<Rightarrow> py_error + datapoint" where
  "load_datapoint j =
     (case j of
        JObject kvs \<Rightarrow>
          (case map_of kvs ''timestamp'' of
             None \<Rightarrow> Inl (KeyError ''timestamp'')
           | Some (JString s) \<Rightarrow>
               (case fromisoformat s of
                  Inl e \<Rightarrow> Inl e
                | Inr ts \<Rightarrow>
                    (case map_of kvs ''input_data'' of
                       None \<Rightarrow> Inl (KeyError ''input_data'')
                     | Some (JObject d) \<Rightarrow> Inr \<lparr>timestamp = ts, input_data = d\<rparr>
                     | Some _ \<Rightarrow> Inl (ValueError ''data must be a dictionary'')))
           | Some _ \<Rightarrow> Inl (TypeError ''fromisoformat: argument must be str''))
      | _ \<Rightarrow> Inl (TypeError ''indices must be integers''))"

fun load_datapoints :: "json list \<Rightarrow> py_error + datapoint list" where
  "load_datapoints [] = Inr []"
| "load_datapoints (j # js) =
     (case load_datapoint j of
        Inl e \<Rightarrow> Inl e
      | Inr dp \<Rightarrow> (case load_datapoints js of Inl e \<Rightarrow> Inl e | Inr dps \<Rightarrow> Inr (dp # dps)))"

definition load :: "path \<Rightarrow> track \<times> world \<Rightarrow> (track \<times> world) outcome" where
  "load filename tw =
     (let t = fst tw; w = snd tw in
      case map_of (files w) filename of
        None \<Rightarrow> Raised FileNotFoundError (t, w)
      | Some f \<Rightarrow>
          (case content f of
             JsonDoc data \<Rightarrow>
               (case data of
                  JArray items \<Rightarrow>
                    (case load_datapoints items of
                       Inl e \<Rightarrow> Raised e (t, w)
                     | Inr dps \<Rightarrow> Done (t\<lparr>data_points := dps, mode := ''replay''\<rparr>, w))
                | JObject kvs \<Rightarrow>
                    (if kvs = [] then Done (t\<lparr>data_points := [], mode := ''replay''\<rparr>, w)
                     else Raised (TypeError ''string indices must be integers'') (t, w))
                | JString s \<Rightarrow>
                    (if s = [] then Done (t\<lparr>data_points := [], mode := ''replay''\<rparr>, w)
                     else Raised (TypeError ''string indices must be integers'') (t, w))
                | _ \<Rightarrow> Raised (TypeError ''object is not iterable'') (t, w))
           | _ \<Rightarrow>
               Raised (RuntimeError ''could not load into a Track'')
                 (t, logmsg CRITICAL ''could not load into a Track'' w)))"

text \<open>
  \<open>_remove_datapoints(start, fraction)\<close>. The number of points to remove is
  \<open>int(len(self.data_points) * fraction)\<close>, a product of doubles in the source and of
  reals here. The two agree when the product is exact in binary floating point, as for
  the fractions \<open>0\<close>, \<open>1/2\<close> and \<open>1\<close>, and for the overflow fraction of \<open>add_point\<close>
  (see there); for other fractions the source can remove one point less or more.
\<close>

definition remove_datapoints :: "nat \<Rightarrow> real \<Rightarrow> track \<times> world \<Rightarrow> track \<times> world" where
  "remove_datapoints start fraction tw =
     (let t = fst tw; w = snd tw; n = length (data_points t) in
      if data_points t = [] then (t, logmsg WARNING ''no data points to clear'' w)
      else
        (let fraction' = max 0 (min fraction 1);
             num_to_remove = nat \<lfloor>real n * fraction'\<rfloor>;
             start' = max 0 (min start (n - 1));
             end' = min (start' + num_to_remove) n
         in (t\<lparr>data_points := take start' (data_points t) @ drop end' (data_points t)\<rparr>,
             logmsg INFO ''cleared data points'' w)))"

definition start_run :: "track \<times> world \<Rightarrow> track \<times> world" where
  "start_run tw =
     (let t = fst tw; w = snd tw in
      if save_mode t = ''on-demand'' then
        (let t1 = t\<lparr>save_mode := ''continuous'',
                    save_interval_start := Some (int (length (data_points t)) - 1)\<rparr>;
             (t2, w2) = (if int (length (data_points t)) - 1 > 0
                         then remove_datapoints 0 (trim_fraction t1) (t1, w) else (t1, w))
         in (t2, logmsg INFO ''logging data'' w2))
      else if save_mode t = ''continuous'' then
        (t, logmsg WARNING ''cannot start track saving on demand'' w)
      else (t, w))"

text \<open>The slice both \<open>end_run\<close> and \<open>_save_checkpoint\<close> export:
  \<open>slice(self._save_interval_start, len(self.data_points) - 1)\<close>.\<close>

definition run_interval :: "track \<Rightarrow> slice" where
  "run_interval t = (save_interval_start t, Some (int (length (data_points t)) - 1))"

definition is_full_checkpoint :: "path \<Rightarrow> bool" where
  "is_full_checkpoint p = endswith (snd p) ''-full.chk.json''"

text \<open>The checkpoint files of the directory that are not tagged \<open>-full\<close>.\<close>

definition plain_checkpoints :: "string \<Rightarrow> world \<Rightarrow> (path \<times> disk_file) list" where
  "plain_checkpoints cdir w =
     filter (\<lambda>(p, f). \<not> is_full_checkpoint p) (glob_glob cdir ''.chk.json'' w)"

fun remove_all :: "path list \<Rightarrow> world \<Rightarrow> world outcome" where
  "remove_all [] w = Done w"
| "remove_all (p # ps) w = and_then (os_remove p w) (remove_all ps)"

definition end_run :: "datetime \<Rightarrow> track \<times> world \<Rightarrow> (track \<times> world) outcome" where
  "end_run now tw =
     (let t = fst tw; w = snd tw in
      if save_mode t \<noteq> ''on-demand'' then
        (case save t (FormatName ''json'') None None (Some (run_interval t)) now w of
           Raised e w1 \<Rightarrow> Raised e (t, w1)
         | Done w1 \<Rightarrow>
             (case remove_all (map fst (plain_checkpoints (checkpoint_dir t) w1)) w1 of
                Raised e w2 \<Rightarrow> Raised e (t, w2)
              | Done w2 \<Rightarrow>
                  Done (t\<lparr>save_interval_start := None, last_checkpoint := None,
                          save_mode := ''on-demand''\<rparr>,
                        logmsg INFO ''data logging ended'' w2)))
      else Done (t, logmsg WARNING ''cannot end track saving'' w))"

text \<open>The retention block that closes \<open>_save_checkpoint\<close>: the checkpoints not
  tagged \<open>-full\<close> are sorted by modification time (a stable sort) and the first is
  unlinked when there are more than \<open>max_checkpoint_files\<close>.\<close>

definition prune_checkpoints :: "track \<Rightarrow> world \<Rightarrow> world outcome" where
  "prune_checkpoints t w =
     (let chk_files = sort_key (\<lambda>(p, f). mtime f) (plain_checkpoints (checkpoint_dir t) w)
      in if int (length chk_files) > max_checkpoint_files t
         then (case chk_files of
                 [] \<Rightarrow> Raised (IndexError ''list index out of range'') w
               | oldest # _ \<Rightarrow> os_remove (fst oldest) w)
         else Done w)"

text \<open>The test that decides whether a checkpoint is written:
  \<open>self._last_checkpoint is None or (now - self._last_checkpoint).total_seconds() >
  self.checkpoint_interval or force\<close>.\<close>

definition checkpoint_due :: "bool \<Rightarrow> datetime \<Rightarrow> track \<Rightarrow> bool" where
  "checkpoint_due force now t =
     (case last_checkpoint t of
        None \<Rightarrow> True
      | Some lc \<Rightarrow>
          (case checkpoint_interval t of
             None \<Rightarrow> force
           | Some iv \<Rightarrow> total_seconds now lc > iv \<or> force))"

definition checkpoint_fname :: "string option \<Rightarrow> datetime \<Rightarrow> string" where
  "checkpoint_fname specifier now =
     (case specifier of
        None \<Rightarrow> strftime_stamp now @ ''.chk''
      | Some sp \<Rightarrow> strftime_stamp now @ sp @ ''.chk'')"

text \<open>\<open>_save_checkpoint(force, specifier)\<close>, with \<open>now\<close> the value of
  \<open>datetime.now()\<close> read inside it.\<close>

definition save_checkpoint :: "bool \<Rightarrow> string option \<Rightarrow> datetime \<Rightarrow> track \<times> world \<Rightarrow> (track \<times> world) outcome" where
  "save_checkpoint force specifier now tw =
     (let t = fst tw; w = snd tw in
      if save_mode t = ''continuous'' \<and> checkpoint_interval t \<noteq> None then
        (let t1 = (if checkpoint_due force now t then t\<lparr>last_checkpoint := Some now\<rparr> else t);
             saved = (if checkpoint_due force now t
                      then save t1 (FormatName ''json'') (Some (checkpoint_fname specifier now))
                             (Some (checkpoint_dir t1)) (Some (run_interval t1)) now w
                      else Done w)
         in case and_then saved (prune_checkpoints t1) of
              Raised e w1 \<Rightarrow> Raised e (t1, w1)
            | Done w1 \<Rightarrow> Done (t1, w1))
      else Done (t, w))"

text \<open>
  \<open>add_point(timestamp, data)\<close>. \<open>now_full\<close> and \<open>now_chk\<close> are the clock readings of
  the forced and of the closing \<open>_save_checkpoint\<close> call. The trimming fraction
  \<open>(len - 1) / len\<close> is computed over the reals; in double precision
  \<open>int(len * ((len - 1) / len))\<close> is \<open>len - 1\<close> as well for every length up to two
  million.
\<close>

definition schema_ok :: "track \<Rightarrow> (string \<times> json) list \<Rightarrow> bool" where
  "schema_ok t data =
     (case field_names t of None \<Rightarrow> True | Some fs \<Rightarrow> set fs = set (map fst data))"

definition handle_overflow :: "datetime \<Rightarrow> track \<times> world \<Rightarrow> (track \<times> world) outcome" where
  "handle_overflow now_full tw =
     (if real (length (data_points (fst tw))) > max_datapoints (fst tw) then
        and_then
          (save_checkpoint True (Some ''-full'') now_full
             (fst tw, logmsg WARNING ''maximum number of datapoints reached'' (snd tw)))
          (\<lambda>tw1.
             (let n = length (data_points (fst tw1)) in
              if n = 0 then Raised ZeroDivisionError tw1
              else Done (remove_datapoints 0 ((real n - 1) / real n) tw1)))
      else Done tw)"

text \<open>The sample that is appended: \<open>DataPoint(timestamp, data)\<close> passed through the
  configured preprocessors in order.\<close>

definition preprocess :: "track \<Rightarrow> datetime \<Rightarrow> (string \<times> json) list \<Rightarrow> datapoint" where
  "preprocess t ts data =
     fold (\<lambda>processor dp. processor dp) (preprocessors t) \<lparr>timestamp = ts, input_data = data\<rparr>"

definition add_point :: "datetime \<Rightarrow> (string \<times> json) list \<Rightarrow> datetime \<Rightarrow> datetime \<Rightarrow> track \<times> world \<Rightarrow> (track \<times> world) outcome" where
  "add_point ts data now_full now_chk tw =
     (if \<not> schema_ok (fst tw) data then Raised (ValueError ''inconsistent fields'') tw
      else
        and_then (handle_overflow now_full tw)
          (\<lambda>tw1.
             (let t2 = (fst tw1)\<lparr>data_points := data_points (fst tw1) @ [preprocess (fst tw1) ts data]\<rparr>
              in save_checkpoint False None now_chk (t2, snd tw1))))"

text \<open>A producer that calls \<open>add_point\<close> once per element of \<open>calls\<close> (timestamp, data
  and the two clock readings) and carries on after an exception; the result lists the
  outcome of every call.\<close>

fun add_points :: "(datetime \<times> (string \<times> json) list \<times> datetime \<times> datetime) list \<Rightarrow> track \<times> world \<Rightarrow> (track \<times> world) outcome list" where
  "add_points [] tw = []"
| "add_points ((ts, data, now_full, now_chk) # calls) tw =
     (let r = add_point ts data now_full now_chk tw in r # add_points calls (state_of r))"

text \<open>
  \<open>get_latest_data\<close>: the loop reads \<open>dp.data\<close> of every point and keeps, per field,
  the last point that carries it.
\<close>

fun latest_data_loop :: "datapoint list \<Rightarrow> (string \<times> datapoint) list \<Rightarrow> py_error + (string \<times> datapoint) list" where
  "latest_data_loop [] latest = Inr latest"
| "latest_data_loop (dp # dps) latest =
     (case datapoint_getattr dp ''data'' of
        Inl e \<Rightarrow> Inl e
      | Inr (AttrDict d) \<Rightarrow>
          latest_data_loop dps (fold (\<lambda>(field, v) acc. AList.update field dp acc) d latest)
      | Inr (AttrDatetime x) \<Rightarrow> Inl (AttributeError ''items''))"

definition get_latest_data :: "track \<Rightarrow> py_error + datapoint list" where
  "get_latest_data t =
     (if data_points t = [] then Inr []
      else (case latest_data_loop (data_points t) [] of
              Inl e \<Rightarrow> Inl e
            | Inr latest \<Rightarrow> Inr (map snd latest)))"

section \<open>The metadata index (database.py)\<close>

text \<open>
  A TinyDB document is a dictionary of Python objects. The objects the index stores
  are JSON values and, under the key \<open>filepath\<close>, \<open>pathlib.Path\<close> objects, which
  \<open>json\<close> cannot serialise.
\<close>

datatype pyobject = Plain json | PathObject path

type_synonym document = "(string \<times> pyobject) list"

definition dict_update :: "('k \<times> 'v) list \<Rightarrow> ('k \<times> 'v) list \<Rightarrow> ('k \<times> 'v) list" where
  "dict_update doc new_fields = fold (\<lambda>(k, v) acc. AList.update k v acc) new_fields doc"

text \<open>The only query the index uses is \<open>Track.filename == name\<close>; a document without
  the key does not match.\<close>

definition filename_is :: "pyobject \<Rightarrow> document \<Rightarrow> bool" where
  "filename_is name doc = (map_of doc ''filename'' = Some name)"

text \<open>
  The store is \<open>TinyDB(path, storage=CachingMiddleware(JSONStorage))\<close>, a library that
  is not part of the repository; it is modelled as far as the index depends on it.
  \<open>table\<close> is the default table as the middleware's cache holds it, the list of its
  documents in the order of their ids: this is what \<open>db.all()\<close> returns. \<open>persisted\<close> is
  the table as the JSON file on disk holds it. Every \<open>insert\<close>, \<open>update\<close> and \<open>remove\<close>
  changes the cached table and then calls the middleware's \<open>write\<close>, which counts the
  call in \<open>unflushed\<close> and, from the count \<open>WRITE_CACHE_SIZE\<close> on, flushes: the whole
  cache goes through \<open>json.dumps\<close> and is written to the file, and the count starts
  again. \<open>json.dumps\<close> raises \<open>TypeError\<close> on a \<open>Path\<close>; then nothing is written, the
  count is not reset and the exception leaves the \<open>insert\<close>, \<open>update\<close> or \<open>remove\<close> that
  caused the flush, whose change of the cached table stays.
\<close>

record store =
  table :: "document list"
  unflushed :: nat
  persisted :: "document list"

definition WRITE_CACHE_SIZE :: nat where
  "WRITE_CACHE_SIZE = 1000"

definition serialisable :: "document \<Rightarrow> bool" where
  "serialisable doc = list_all (\<lambda>(k, v). case v of Plain j \<Rightarrow> True | PathObject p \<Rightarrow> False) doc"

definition flush :: "store \<Rightarrow> store outcome" where
  "flush s =
     (if unflushed s > 0 then
        (if list_all serialisable (table s) then Done (s\<lparr>persisted := table s, unflushed := 0\<rparr>)
         else Raised (TypeError ''Object of type PosixPath is not JSON serializable'') s)
      else Done s)"

definition storage_write :: "document list \<Rightarrow> store \<Rightarrow> store outcome" where
  "storage_write docs s =
     (let s1 = s\<lparr>table := docs, unflushed := unflushed s + 1\<rparr>
      in if unflushed s1 \<ge> WRITE_CACHE_SIZE then flush s1 else Done s1)"

text \<open>\<open>insert\<close> appends, \<open>update(fields, cond)\<close> merges \<open>fields\<close> into every document that
  satisfies \<open>cond\<close>, \<open>remove(cond)\<close> deletes those documents and returns the list of their
  ids, for which their positions stand here.\<close>

definition tinydb_insert :: "document \<Rightarrow> store \<Rightarrow> store outcome" where
  "tinydb_insert doc s = storage_write (table s @ [doc]) s"

definition tinydb_update :: "document \<Rightarrow> pyobject \<Rightarrow> store \<Rightarrow> store outcome" where
  "tinydb_update new_fields name s =
     storage_write (map (\<lambda>doc. if filename_is name doc then dict_update doc new_fields else doc) (table s)) s"


definition tinydb_remove :: "pyobject \<Rightarrow> store \<Rightarrow> store outcome" where
  "tinydb_remove name s = storage_write (filter (\<lambda>doc. \<not> filename_is name doc) (table s)) s"

text \<open>
  The five extractor methods of \<open>MetadataExtractor\<close> are pure functions of the file
  name and the parsed data, each run under its own \<open>try\<close>, and what they return are
  strings, numbers, lists of strings and \<open>None\<close>; the dictionary they contribute
  together is the field \<open>extractors\<close>, and every property below holds for whatever
  JSON values they compute.
\<close>

record database =
  directory :: string
  checkpoint_directory :: string
  db_fname :: string
  validation :: bool
  extractors :: "string \<Rightarrow> json \<Rightarrow> (string \<times> json) list"
  db :: store
  tracks :: "document list"

text \<open>\<open>TRACK_SCHEMA\<close>: an array of objects with a string \<open>timestamp\<close> and an object
  \<open>input_data\<close> whose values are numbers, strings, booleans or null.\<close>

definition is_scalar :: "json \<Rightarrow> bool" where
  "is_scalar v = (case v of JArray _ \<Rightarrow> False | JObject _ \<Rightarrow> False | _ \<Rightarrow> True)"

definition valid_item :: "json \<Rightarrow> bool" where
  "valid_item j =
     (case j of
        JObject kvs \<Rightarrow>
          (case map_of kvs ''timestamp'' of
             Some (JString s) \<Rightarrow>
               (case map_of kvs ''input_data'' of
                  Some (JObject d) \<Rightarrow> list_all (\<lambda>(k, v). is_scalar v) d
                | _ \<Rightarrow> False)
           | _ \<Rightarrow> False)
      | _ \<Rightarrow> False)"

definition valid_track_json :: "json \<Rightarrow> bool" where
  "valid_track_json j = (case j of JArray items \<Rightarrow> list_all valid_item items | _ \<Rightarrow> False)"

text \<open>\<open>validate_json\<close>: a missing file is not caught (only \<open>JSONDecodeError\<close> and
  \<open>ValidationError\<close> are).\<close>

definition validate_json :: "path \<Rightarrow> world \<Rightarrow> py_error + bool" where
  "validate_json filepath w =
     (case map_of (files w) filepath of
        None \<Rightarrow> Inl FileNotFoundError
      | Some f \<Rightarrow> (case content f of JsonDoc data \<Rightarrow> Inr (valid_track_json data) | _ \<Rightarrow> Inr False))"

text \<open>\<open>extract_all\<close>: any failure to read or parse the file leaves only the file name.\<close>

definition extract_all :: "database \<Rightarrow> path \<Rightarrow> world \<Rightarrow> document" where
  "extract_all d filepath w =
     (case map_of (files w) filepath of
        None \<Rightarrow> [(''filename'', Plain (JString (snd filepath)))]
      | Some f \<Rightarrow>
          (case content f of
             JsonDoc data \<Rightarrow>
               dict_update [(''filename'', Plain (JString (snd filepath)))]
                 (map (\<lambda>(k, v). (k, Plain v)) (extractors d (snd filepath) data))
           | _ \<Rightarrow> [(''filename'', Plain (JString (snd filepath)))]))"

text \<open>\<open>{t["filename"]: t for t in self.db.all()}\<close>: a document without the key raises
  \<open>KeyError\<close>, a list or dictionary as file name is unhashable.\<close>

fun existing_tracks :: "document list \<Rightarrow> (pyobject \<times> document) list \<Rightarrow> py_error + (pyobject \<times> document) list" where
  "existing_tracks [] acc = Inr acc"
| "existing_tracks (t # ts) acc =
     (case map_of t ''filename'' of
        None \<Rightarrow> Inl (KeyError ''filename'')
      | Some (Plain (JArray xs)) \<Rightarrow> Inl (TypeError ''unhashable type'')
      | Some (Plain (JObject kvs)) \<Rightarrow> Inl (TypeError ''unhashable type'')
      | Some name \<Rightarrow> existing_tracks ts (AList.update name t acc))"

text \<open>The snapshot of the file system: file name to modification time, the primary
  directory first (without the store's own file), then the checkpoint directory.\<close>

definition found_files :: "database \<Rightarrow> world \<Rightarrow> (string \<times> int) list" where
  "found_files d w =
     (let primary = map (\<lambda>(p, f). (snd p, mtime f))
                      (filter (\<lambda>(p, f). snd p \<noteq> db_fname d) (path_glob (directory d) ''.json'' w));
          chk = (if checkpoint_directory d \<in> set (dirs w)
                 then map (\<lambda>(p, f). (snd p, mtime f)) (path_glob (checkpoint_directory d) ''.chk.json'' w)
                 else [])
      in fold (\<lambda>(name, mt) acc. AList.update name mt acc) (primary @ chk) [])"

definition in_found :: "(string \<times> int) list \<Rightarrow> pyobject \<Rightarrow> bool" where
  "in_found found name = (case name of Plain (JString s) \<Rightarrow> map_of found s \<noteq> None | _ \<Rightarrow> False)"

text \<open>The loop that removes the documents whose file is gone, over the keys of the
  snapshot of the table; an exception of the store ends it.\<close>

fun remove_missing :: "(string \<times> int) list \<Rightarrow> pyobject list \<Rightarrow> store \<times> (pyobject \<times> document) list \<Rightarrow> (store \<times> (pyobject \<times> document) list) outcome" where
  "remove_missing found [] st = Done st"
| "remove_missing found (name # names) st =
     (if in_found found name then remove_missing found names st
      else
        (case tinydb_remove name (fst st) of
           Raised e s1 \<Rightarrow> Raised e (s1, snd st)
         | Done s1 \<Rightarrow> remove_missing found names (s1, AList.delete name (snd st))))"

text \<open>\<open>Path.stem\<close>: the name without its last suffix; a leading dot starts no suffix.\<close>

definition path_stem :: "string \<Rightarrow> string" where
  "path_stem name =
     (let ext = takeWhile (\<lambda>c. c \<noteq> CHR ''.'') (rev name);
          i = length name - length ext - 1
      in if length ext < length name \<and> 0 < i \<and> ext \<noteq> [] then take i name else name)"

text \<open>\<open>existing_exports\<close>: for every export extension, the stems of the files of the
  primary directory with that extension.\<close>

definition existing_exports :: "database \<Rightarrow> world \<Rightarrow> (string \<times> string list) list" where
  "existing_exports d w =
     fold (\<lambda>(base, ext) acc.
             AList.update base ((case map_of acc base of None \<Rightarrow> [] | Some exts \<Rightarrow> exts) @ [ext]) acc)
       (concat (map (\<lambda>ext. map (\<lambda>(p, f). (path_stem (snd p), ext))
                              (path_glob (directory d) (''.'' @ ext) w))
                    (map fst export_methods)))
       []"

text \<open>\<open>s.replace(pat, "")\<close>: every occurrence of a non-empty \<open>pat\<close> is deleted, from
  the left.\<close>

function str_remove :: "string \<Rightarrow> string \<Rightarrow> string" where
  "str_remove pat [] = []"
| "str_remove pat (c # cs) =
     (if pat \<noteq> [] \<and> take (length pat) (c # cs) = pat
      then str_remove pat (drop (length pat) (c # cs))
      else c # str_remove pat cs)"
  by pat_completeness auto
termination
  by (relation "measure (\<lambda>(pat, s). length s)") auto

definition base_name :: "string \<Rightarrow> string" where
  "base_name fname = str_remove ''.json'' (str_remove ''.chk.json'' fname)"

text \<open>The test \<open>(not db_track) or (db_track.get("mtime") != mtime)\<close>.\<close>

definition is_dirty :: "document option \<Rightarrow> int \<Rightarrow> bool" where
  "is_dirty db_track mt =
     (case db_track of
        None \<Rightarrow> True
      | Some doc \<Rightarrow> doc = [] \<or> map_of doc ''mtime'' \<noteq> Some (Plain (JInt mt)))"

definition track_path :: "database \<Rightarrow> string \<Rightarrow> path" where
  "track_path d fname =
     (if endswith fname ''.chk.json'' then (checkpoint_directory d, fname) else (directory d, fname))"

text \<open>The metadata stored for a file that is new or modified; \<open>full_path\<close> is a
  \<open>Path\<close> and is stored as it is.\<close>

definition file_meta :: "database \<Rightarrow> world \<Rightarrow> (string \<times> string list) list \<Rightarrow> string \<Rightarrow> int \<Rightarrow> document" where
  "file_meta d w exports fname mt =
     (let full_path = track_path d fname;
          meta = dict_update (extract_all d full_path w)
                   [(''checkpoint'', Plain (JBool (endswith fname ''.chk.json''))),
                    (''filename'', Plain (JString fname)),
                    (''filepath'', PathObject full_path),
                    (''mtime'', Plain (JInt mt))]
      in case map_of exports (base_name fname) of
           None \<Rightarrow> meta
         | Some exts \<Rightarrow> AList.update ''exports'' (Plain (JArray (map JString exts))) meta)"

text \<open>The body of the loop over the found files.\<close>

definition sync_file :: "database \<Rightarrow> world \<Rightarrow> (pyobject \<times> document) list \<Rightarrow> (string \<times> string list) list \<Rightarrow> string \<times> int \<Rightarrow> store \<Rightarrow> store outcome" where
  "sync_file d w existing exports item s =
     (let fname = fst item; mt = snd item;
          db_track = map_of existing (Plain (JString fname))
      in if is_dirty db_track mt then
           (case validate_json (track_path d fname) w of
              Inl e \<Rightarrow> Raised e s
            | Inr valid \<Rightarrow>
                if valid \<or> \<not> validation d then
                  (case db_track of
                     None \<Rightarrow> tinydb_insert (file_meta d w exports fname mt) s
                   | Some doc \<Rightarrow>
                       if doc = [] then tinydb_insert (file_meta d w exports fname mt) s
                       else tinydb_update (file_meta d w exports fname mt) (Plain (JString fname)) s)
                else Done s)
         else Done s)"

fun sync_files :: "database \<Rightarrow> world \<Rightarrow> (pyobject \<times> document) list \<Rightarrow> (string \<times> string list) list \<Rightarrow> (string \<times> int) list \<Rightarrow> store \<Rightarrow> store outcome" where
  "sync_files d w existing exports [] s = Done s"
| "sync_files d w existing exports (item # items) s =
     and_then (sync_file d w existing exports item s) (sync_files d w existing exports items)"

text \<open>\<open>load_tracks_incrementally\<close>. An exception of the store or of \<open>validate_json\<close>
  leaves the method where it is raised; \<open>self.tracks\<close> is refreshed at the end only.\<close>

definition load_tracks_incrementally :: "world \<Rightarrow> database \<Rightarrow> database outcome" where
  "load_tracks_incrementally w d =
     (case existing_tracks (table (db d)) [] of
        Inl e \<Rightarrow> Raised e d
      | Inr existing0 \<Rightarrow>
          (let found = found_files d w in
           case remove_missing found (map fst existing0) (db d, existing0) of
             Raised e st \<Rightarrow> Raised e (d\<lparr>db := fst st\<rparr>)
           | Done st \<Rightarrow>
               (let exports = existing_exports d w
                in case sync_files d w (snd st) exports found (fst st) of
                     Raised e s2 \<Rightarrow> Raised e (d\<lparr>db := s2\<rparr>)
                   | Done s2 \<Rightarrow> Done (d\<lparr>db := s2, tracks := table s2\<rparr>))))"










section \<open>Notions used in the proofs\<close>

text \<open>The document that the snapshot \<open>existing_tracks\<close> holds for a file name: the last
  document of the table with that name.\<close>

definition last_doc :: "document list \<Rightarrow> pyobject \<Rightarrow> document option" where
  "last_doc docs name =
     (if filter (filename_is name) docs = [] then None else Some (last (filter (filename_is name) docs)))"

text \<open>The documents of the table that carry a given file name.\<close>

definition records_of :: "string \<Rightarrow> database \<Rightarrow> document list" where
  "records_of f d = filter (filename_is (Plain (JString f))) (table (db d))"

section \<open>Example states\<close>

definition noon :: datetime where
  "noon = \<lparr>year = 2024, month = 5, day = 17, hour = 12, minute = 0, second = 0, microsecond = 0\<rparr>"

definition sample_at :: "nat \<Rightarrow> datapoint" where
  "sample_at k = \<lparr>timestamp = noon\<lparr>second := k\<rparr>, input_data = [(''a'', JInt (int k))]\<rparr>"

text \<open>\<open>Track(field_names=['a'], max_datapoints=2)\<close> on a disk that holds the two
  directories the constructor creates.\<close>

definition demo_track :: track where
  "demo_track =
     \<lparr>data_points = [], field_names = Some [''a''], mode = ''live'', save_mode = ''continuous'',
      checkpoint_interval = Some 120, max_checkpoint_files = 3, output_dir = ''data'',
      trim_fraction = 1 / 2, max_datapoints = 2, preprocessors = [], replay_index = 0,
      last_checkpoint = None, save_interval_start = None, checkpoint_dir = ''data/chk''\<rparr>"

definition demo_world :: world where
  "demo_world = \<lparr>dirs = [''data'', ''data/chk''], files = [], protected = [], log = []\<rparr>"

definition zero_cap_track :: track where
  "zero_cap_track = demo_track\<lparr>data_points := [sample_at 1], max_datapoints := 0, save_mode := ''on-demand''\<rparr>"

definition full_track :: track where
  "full_track = demo_track\<lparr>data_points := [sample_at 1, sample_at 2, sample_at 3]\<rparr>"

definition demo_calls :: "(datetime \<times> (string \<times> json) list \<times> datetime \<times> datetime) list" where
  "demo_calls =
     [(noon\<lparr>second := 1\<rparr>, [(''a'', JInt 1)], noon\<lparr>second := 1\<rparr>, noon\<lparr>second := 1\<rparr>),
      (noon\<lparr>second := 2\<rparr>, [(''b'', JInt 2)], noon\<lparr>second := 2\<rparr>, noon\<lparr>second := 2\<rparr>),
      (noon\<lparr>second := 3\<rparr>, [(''a'', JInt 3)], noon\<lparr>second := 3\<rparr>, noon\<lparr>second := 3\<rparr>),
      (noon\<lparr>second := 4\<rparr>, [(''a'', JInt 4)], noon\<lparr>second := 4\<rparr>, noon\<lparr>second := 4\<rparr>),
      (noon\<lparr>second := 5\<rparr>, [(''a'', JInt 5)], noon\<lparr>second := 5\<rparr>, noon\<lparr>second := 5\<rparr>)]"



text \<open>A directory with a track, an export of it, the store's own file, a checkpoint and
  an unreadable file; the track cannot be unlinked. The table knows the track and a file
  that is gone.\<close>

definition track_file :: "int \<Rightarrow> disk_file" where
  "track_file mt = \<lparr>mtime = mt, content = JsonDoc (JArray (map asdict_json [sample_at 1, sample_at 2]))\<rparr>"

definition index_world :: world where
  "index_world =
     \<lparr>dirs = [''data'', ''data/chk''],
      files = [((''data'', ''a.json''), track_file 10),
               ((''data'', ''a.csv''), \<lparr>mtime = 11, content = CsvDoc [''timestamp'', ''a''] []\<rparr>),
               ((''data'', ''tracks_metadata.json''), \<lparr>mtime = 12, content = JsonDoc (JObject [])\<rparr>),
               ((''data/chk'', ''b.chk.json''), track_file 20),
               ((''data'', ''bad.json''), \<lparr>mtime = 30, content = Unparsable ''oops''\<rparr>)],
      protected = [(''data'', ''a.json'')], log = []\<rparr>"

definition index_db :: database where
  "index_db =
     \<lparr>directory = ''data'', checkpoint_directory = ''data/chk'', db_fname = ''tracks_metadata.json'',
      validation = True,
      extractors = (\<lambda>name data. [(''datapoint_count'', (case data of JArray xs \<Rightarrow> JInt (int (length xs)) | _ \<Rightarrow> JNull))]),
      db = \<lparr>table = [[(''filename'', Plain (JString ''a.json'')), (''mtime'', Plain (JInt 10))],
                      [(''filename'', Plain (JString ''gone.json'')), (''mtime'', Plain (JInt 5))]],
            unflushed = 3, persisted = []\<rparr>,
      tracks = []\<rparr>"

definition stale_db :: database where
  "stale_db = index_db\<lparr>db := \<lparr>table = [[(''filename'', Plain (JString ''a.json'')), (''mtime'', Plain (JInt 9))]],
                               unflushed = 2, persisted = []\<rparr>\<rparr>"

text \<open>The checkpoint \<open>b.chk.json\<close> is known with an older modification time and with an
  export that is no longer on disk.\<close>

definition merged_db :: database where
  "merged_db = index_db\<lparr>db := \<lparr>table = [[(''filename'', Plain (JString ''a.json'')), (''mtime'', Plain (JInt 10))],
                                         [(''filename'', Plain (JString ''b.chk.json'')), (''mtime'', Plain (JInt 19)),
                                          (''exports'', Plain (JArray [JString ''gpx'']))]],
                                unflushed = 3, persisted = []\<rparr>\<rparr>"

text \<open>An empty table in a store that has counted 999 writes since its last flush.\<close>

definition busy_db :: database where
  "busy_db = index_db\<lparr>db := \<lparr>table = [], unflushed = 999, persisted = []\<rparr>\<rparr>"



section \<open>Verified properties\<close>

lemmas eval_defs =
  add_point_def handle_overflow_def schema_ok_def save_checkpoint_def checkpoint_due_def
  checkpoint_fname_def prune_checkpoints_def plain_checkpoints_def glob_glob_def
  is_full_checkpoint_def endswith_def save_def save_try_def export_methods_def
  export_to_json_def select_interval_def py_slice_def slice_index_def run_interval_def
  write_file_def os_remove_def path_exists_def logmsg_def remove_datapoints_def
  strftime_stamp_def zpad4_def zpad2_def digit_char_def dt_micros_def ymd2ord_def
  days_before_year_def days_before_month_def days_in_month_def is_leap_def total_seconds_def
  asdict_json_def str_datetime_def isoformat_sep_def zpad6_def preprocess_def
  demo_track_def demo_world_def noon_def sample_at_def Let_def

subsection \<open>The recorder\<close>

lemma returned_Done: "returned r \<Longrightarrow> \<exists>s. r = Done s"
  by (cases r) auto

lemma save_checkpoint_data_points:
  "data_points (fst (state_of (save_checkpoint force sp now tw))) = data_points (fst tw)"
  by (auto simp: save_checkpoint_def Let_def split: outcome.splits)

lemma save_checkpoint_max_datapoints:
  "max_datapoints (fst (state_of (save_checkpoint force sp now tw))) = max_datapoints (fst tw)"
  by (auto simp: save_checkpoint_def Let_def split: outcome.splits)

lemma save_checkpoint_preprocessors:
  "preprocessors (fst (state_of (save_checkpoint force sp now tw))) = preprocessors (fst tw)"
  by (auto simp: save_checkpoint_def Let_def split: outcome.splits)

lemma floor_trim: "0 < n \<Longrightarrow> nat \<lfloor>real n * max 0 (min ((real n - 1) / real n) 1)\<rfloor> = n - 1"
proof -
  assume n: "0 < n"
  then have "(real n - 1) / real n \<le> 1" by simp
  moreover from n have "0 \<le> (real n - 1) / real n" by simp
  ultimately have "max 0 (min ((real n - 1) / real n) 1) = (real n - 1) / real n" by simp
  moreover from n have "real n * ((real n - 1) / real n) = real (n - 1)" by (simp add: of_nat_diff)
  ultimately show ?thesis by simp
qed

lemma floor_trim': "0 < n \<Longrightarrow> nat \<lfloor>real n * max 0 ((real n - 1) / real n)\<rfloor> = n - 1"
proof -
  assume n: "0 < n"
  then have "(real n - 1) / real n \<le> 1" by simp
  then have "min ((real n - 1) / real n) 1 = (real n - 1) / real n" by simp
  then show ?thesis using floor_trim[OF n] by simp
qed

text \<open>Trimming with the fraction \<open>(len - 1) / len\<close> keeps exactly the last sample.\<close>

lemma remove_datapoints_keep_last:
  assumes "data_points (fst tw) \<noteq> []"
  shows "data_points (fst (remove_datapoints 0 ((real (length (data_points (fst tw))) - 1) / real (length (data_points (fst tw)))) tw))
         = [last (data_points (fst tw))]"
proof -
  let ?dps = "data_points (fst tw)"
  have n: "0 < length ?dps" using assms by simp
  have "drop (length ?dps - 1) ?dps = [last ?dps]"
    using assms by (metis append_butlast_last_id append_eq_conv_conj length_butlast)
  then show ?thesis
    using assms n by (simp add: remove_datapoints_def Let_def floor_trim')
qed

lemma remove_datapoints_max: "max_datapoints (fst (remove_datapoints s f tw)) = max_datapoints (fst tw)"
  by (simp add: remove_datapoints_def Let_def)

lemma remove_datapoints_preprocessors: "preprocessors (fst (remove_datapoints s f tw)) = preprocessors (fst tw)"
  by (simp add: remove_datapoints_def Let_def)

lemma handle_overflow_Done:
  assumes "handle_overflow now tw = Done tw1"
  shows "max_datapoints (fst tw1) = max_datapoints (fst tw)"
    and "preprocessors (fst tw1) = preprocessors (fst tw)"
    and "real (length (data_points (fst tw))) > max_datapoints (fst tw) \<Longrightarrow>
           data_points (fst tw1) = [last (data_points (fst tw))]"
    and "\<not> real (length (data_points (fst tw))) > max_datapoints (fst tw) \<Longrightarrow> tw1 = tw"
proof -
  let ?tw0 = "(fst tw, logmsg WARNING ''maximum number of datapoints reached'' (snd tw))"
  let ?r = "save_checkpoint True (Some ''-full'') now ?tw0"
  show "\<not> real (length (data_points (fst tw))) > max_datapoints (fst tw) \<Longrightarrow> tw1 = tw"
    using assms by (simp add: handle_overflow_def)
  {
    assume ov: "real (length (data_points (fst tw))) > max_datapoints (fst tw)"
    from assms ov obtain tw2 where r: "?r = Done tw2"
      and ne: "length (data_points (fst tw2)) \<noteq> 0"
      and res: "tw1 = remove_datapoints 0 ((real (length (data_points (fst tw2))) - 1) / real (length (data_points (fst tw2)))) tw2"
      by (cases ?r) (auto simp: handle_overflow_def Let_def split: if_splits)
    have dp: "data_points (fst tw2) = data_points (fst tw)"
      using save_checkpoint_data_points[of True "Some ''-full''" now ?tw0] r by simp
    have md: "max_datapoints (fst tw2) = max_datapoints (fst tw)"
      using save_checkpoint_max_datapoints[of True "Some ''-full''" now ?tw0] r by simp
    have pp: "preprocessors (fst tw2) = preprocessors (fst tw)"
      using save_checkpoint_preprocessors[of True "Some ''-full''" now ?tw0] r by simp
    from ne have "data_points (fst tw2) \<noteq> []" by simp
    from remove_datapoints_keep_last[OF this] res dp
    have "data_points (fst tw1) = [last (data_points (fst tw))]" by simp
    moreover have "max_datapoints (fst tw1) = max_datapoints (fst tw)"
      using res md by (simp add: remove_datapoints_max)
    moreover have "preprocessors (fst tw1) = preprocessors (fst tw)"
      using res pp by (simp add: remove_datapoints_preprocessors)
    ultimately have "data_points (fst tw1) = [last (data_points (fst tw))] \<and>
       max_datapoints (fst tw1) = max_datapoints (fst tw) \<and> preprocessors (fst tw1) = preprocessors (fst tw)"
      by simp
  } note ovf = this
  show "real (length (data_points (fst tw))) > max_datapoints (fst tw) \<Longrightarrow>
           data_points (fst tw1) = [last (data_points (fst tw))]"
    using ovf by simp
  show "max_datapoints (fst tw1) = max_datapoints (fst tw)"
    using ovf assms by (cases "real (length (data_points (fst tw))) > max_datapoints (fst tw)") (auto simp: handle_overflow_def)
  show "preprocessors (fst tw1) = preprocessors (fst tw)"
    using ovf assms by (cases "real (length (data_points (fst tw))) > max_datapoints (fst tw)") (auto simp: handle_overflow_def)
qed

text \<open>What a returning \<open>add_point\<close> has done: the overflow handling ran to its end and
  the preprocessed sample was appended to the buffer it left.\<close>

lemma add_point_Done:
  assumes "add_point ts data n1 n2 tw = Done tw'"
  shows "\<exists>tw1. handle_overflow n1 tw = Done tw1 \<and> schema_ok (fst tw) data \<and>
           data_points (fst tw') = data_points (fst tw1) @ [preprocess (fst tw) ts data] \<and>
           max_datapoints (fst tw') = max_datapoints (fst tw)"
proof -
  from assms have ok: "schema_ok (fst tw) data"
    by (auto simp: add_point_def split: if_splits)
  from assms ok obtain tw1 where h: "handle_overflow n1 tw = Done tw1"
    by (cases "handle_overflow n1 tw") (auto simp: add_point_def)
  let ?t2 = "(fst tw1)\<lparr>data_points := data_points (fst tw1) @ [preprocess (fst tw1) ts data]\<rparr>"
  from assms ok h have sc: "save_checkpoint False None n2 (?t2, snd tw1) = Done tw'"
    by (simp add: add_point_def Let_def)
  have "data_points (fst tw') = data_points ?t2"
    using save_checkpoint_data_points[of False None n2 "(?t2, snd tw1)"] sc by simp
  moreover have "max_datapoints (fst tw') = max_datapoints ?t2"
    using save_checkpoint_max_datapoints[of False None n2 "(?t2, snd tw1)"] sc by simp
  moreover have "preprocess (fst tw1) ts data = preprocess (fst tw) ts data"
    using handle_overflow_Done(2)[OF h] by (simp add: preprocess_def)
  ultimately show ?thesis
    using h ok handle_overflow_Done(1)[OF h] by simp
qed

lemma add_point_bound:
  assumes "add_point ts data n1 n2 tw = Done tw'"
  shows "real (length (data_points (fst tw'))) \<le> max (max_datapoints (fst tw) + 1) 2"
proof -
  from add_point_Done[OF assms] obtain tw1 where h: "handle_overflow n1 tw = Done tw1"
    and dp: "data_points (fst tw') = data_points (fst tw1) @ [preprocess (fst tw) ts data]"
    by blast
  show ?thesis
  proof (cases "real (length (data_points (fst tw))) > max_datapoints (fst tw)")
    case True
    from handle_overflow_Done(3)[OF h True] dp show ?thesis by simp
  next
    case False
    from handle_overflow_Done(4)[OF h False] dp False show ?thesis by simp
  qed
qed

lemma handle_overflow_max:
  "max_datapoints (fst (state_of (handle_overflow now tw))) = max_datapoints (fst tw)"
proof (cases "handle_overflow now tw")
  case (Done tw1)
  then show ?thesis using handle_overflow_Done(1)[OF Done] by simp
next
  case (Raised e tw1)
  let ?tw0 = "(fst tw, logmsg WARNING ''maximum number of datapoints reached'' (snd tw))"
  let ?r = "save_checkpoint True (Some ''-full'') now ?tw0"
  from Raised have "tw1 = state_of ?r"
    by (cases ?r) (auto simp: handle_overflow_def Let_def split: if_splits)
  then show ?thesis using Raised save_checkpoint_max_datapoints[of True "Some ''-full''" now ?tw0] by simp
qed

lemma add_point_max:
  "max_datapoints (fst (state_of (add_point ts data n1 n2 tw))) = max_datapoints (fst tw)"
proof (cases "schema_ok (fst tw) data")
  case False
  then show ?thesis by (simp add: add_point_def)
next
  case True
  show ?thesis
  proof (cases "handle_overflow n1 tw")
    case (Raised e tw1)
    then show ?thesis using True handle_overflow_max[of n1 tw] by (simp add: add_point_def)
  next
    case (Done tw1)
    then show ?thesis using True handle_overflow_max[of n1 tw]
      by (simp add: add_point_def Let_def save_checkpoint_max_datapoints)
  qed
qed

text \<open>
  C1, as amended. Whatever the buffer held before and whatever calls were made, after
  every \<open>add_point\<close> call that returns the buffer holds at most
  \<open>max(max_datapoints + 1, 2)\<close> samples: at most \<open>max_datapoints + 1\<close> whenever
  \<open>max_datapoints\<close> is at least 1. A call that overflows keeps one old sample and
  appends the new one, so two samples are the floor of the bound.
\<close>

theorem add_points_bound:
  "\<forall>r \<in> set (add_points calls tw). returned r \<longrightarrow>
     real (length (data_points (fst (state_of r)))) \<le> max (max_datapoints (fst tw) + 1) 2"
proof (induction calls arbitrary: tw)
  case Nil
  show ?case by simp
next
  case (Cons c calls)
  obtain ts data n1 n2 where c: "c = (ts, data, n1, n2)" by (cases c) auto
  let ?r = "add_point ts data n1 n2 tw"
  have hd: "returned ?r \<longrightarrow> real (length (data_points (fst (state_of ?r)))) \<le> max (max_datapoints (fst tw) + 1) 2"
    using add_point_bound[of ts data n1 n2 tw] by (cases ?r) auto
  have tl: "\<forall>r \<in> set (add_points calls (state_of ?r)). returned r \<longrightarrow>
     real (length (data_points (fst (state_of r)))) \<le> max (max_datapoints (fst tw) + 1) 2"
    using Cons.IH[of "state_of ?r"] by (simp add: add_point_max)
  show ?case using hd tl by (simp add: c Let_def)
qed

text \<open>
  The bound \<open>max_datapoints + 1\<close> alone fails for \<open>max_datapoints = 0\<close>: a buffer of one
  sample satisfies it, and the next call leaves two samples.
\<close>

theorem add_point_bound_counterexample:
  "real (length (data_points zero_cap_track)) \<le> max_datapoints zero_cap_track + 1 \<and>
   schema_ok zero_cap_track [(''a'', JInt 2)] \<and>
   returned (add_point (noon\<lparr>second := 2\<rparr>) [(''a'', JInt 2)] noon noon (zero_cap_track, demo_world)) \<and>
   length (data_points (fst (state_of (add_point (noon\<lparr>second := 2\<rparr>) [(''a'', JInt 2)] noon noon (zero_cap_track, demo_world))))) = 2 \<and>
   \<not> real (length (data_points (fst (state_of (add_point (noon\<lparr>second := 2\<rparr>) [(''a'', JInt 2)] noon noon (zero_cap_track, demo_world))))))
       \<le> max_datapoints zero_cap_track + 1"
  by (simp add: zero_cap_track_def eval_defs)

lemma demo_run:
  "map (\<lambda>r. (returned r, length (data_points (fst (state_of r))))) (add_points demo_calls (full_track, demo_world))
   = [(True, 2), (False, 2), (True, 3), (True, 2), (True, 3)]"
  by (simp add: demo_calls_def full_track_def eval_defs)

theorem add_points_bound_witness:
  "map (\<lambda>r. (returned r, length (data_points (fst (state_of r))))) (add_points demo_calls (full_track, demo_world))
   = [(True, 2), (False, 2), (True, 3), (True, 2), (True, 3)] \<and>
   list_all (\<lambda>r. \<not> returned r \<or> real (length (data_points (fst (state_of r)))) \<le> max (max_datapoints full_track + 1) 2)
     (add_points demo_calls (full_track, demo_world))"
  using add_points_bound[of demo_calls "(full_track, demo_world)"] demo_run
  by (simp add: list_all_iff)

lemma logmsg_files [simp]: "files (logmsg l m w) = files w" "dirs (logmsg l m w) = dirs w" "protected (logmsg l m w) = protected w"
  by (simp_all add: logmsg_def)

lemma save_json_files:
  "save t (FormatName ''json'') (Some fn) (Some od) iv now w = Done w' \<Longrightarrow>
   files w' = (if od \<in> set (dirs w) \<and> (od, fn @ ''.json'') \<notin> set (protected w)
               then AList.update (od, fn @ ''.json'')
                      \<lparr>mtime = dt_micros now, content = JsonDoc (JArray (map asdict_json (select_interval iv (data_points t))))\<rparr> (files w)
               else files w)
   \<and> dirs w' = dirs w \<and> protected w' = protected w"
  by (auto simp: save_def save_try_def export_methods_def export_to_json_def write_file_def Let_def
           split: outcome.splits if_splits)

lemma save_Done: "\<exists>w'. save t (FormatName fmt) fn od iv now w = Done w'"
  by (simp add: save_def Let_def split: outcome.splits)

lemma plain_not_full: "x \<in> set (plain_checkpoints d w) \<Longrightarrow> \<not> is_full_checkpoint (fst x)"
  by (auto simp: plain_checkpoints_def)

lemma prune_keeps_full:
  assumes "prune_checkpoints t w = Done w'" and "is_full_checkpoint p"
  shows "map_of (files w') p = map_of (files w) p"
proof (cases "int (length (sort_key (\<lambda>(p, f). mtime f) (plain_checkpoints (checkpoint_dir t) w))) > max_checkpoint_files t")
  case False
  then show ?thesis using assms by (simp add: prune_checkpoints_def Let_def)
next
  case True
  let ?cs = "sort_key (\<lambda>(p, f). mtime f) (plain_checkpoints (checkpoint_dir t) w)"
  from assms True obtain oldest rest where cs: "?cs = oldest # rest" and rm: "os_remove (fst oldest) w = Done w'"
    by (cases ?cs) (auto simp: prune_checkpoints_def Let_def)
  have "oldest \<in> set ?cs" using cs by simp
  then have "oldest \<in> set (plain_checkpoints (checkpoint_dir t) w)" by simp
  then have "\<not> is_full_checkpoint (fst oldest)" by (rule plain_not_full)
  then have ne: "fst oldest \<noteq> p" using assms(2) by auto
  from rm have "files w' = AList.delete (fst oldest) (files w)"
    by (auto simp: os_remove_def split: if_splits)
  then show ?thesis using ne by (simp add: delete_conv')
qed

lemma prune_dirs:
  "prune_checkpoints t w = Done w' \<Longrightarrow> dirs w' = dirs w \<and> protected w' = protected w"
  by (auto simp: prune_checkpoints_def os_remove_def Let_def split: if_splits list.splits)

lemma checkpoint_due_force: "checkpoint_due True now t"
  by (simp add: checkpoint_due_def split: option.splits)

lemma save_checkpoint_other_full:
  assumes "save_checkpoint force sp now (t, w) = Done (t', w')"
    and "is_full_checkpoint p"
    and "p \<noteq> (checkpoint_dir t, checkpoint_fname sp now @ ''.json'')"
  shows "map_of (files w') p = map_of (files w) p"
proof (cases "save_mode t = ''continuous'' \<and> checkpoint_interval t \<noteq> None")
  case False
  then show ?thesis using assms by (auto simp: save_checkpoint_def Let_def)
next
  case True
  let ?t1 = "if checkpoint_due force now t then t\<lparr>last_checkpoint := Some now\<rparr> else t"
  let ?saved = "if checkpoint_due force now t
                then save ?t1 (FormatName ''json'') (Some (checkpoint_fname sp now))
                       (Some (checkpoint_dir ?t1)) (Some (run_interval ?t1)) now w
                else Done w"
  have "\<exists>w1. ?saved = Done w1"
  proof (cases "checkpoint_due force now t")
    case True
    then show ?thesis using save_Done[of ?t1 "''json''" "Some (checkpoint_fname sp now)"
        "Some (checkpoint_dir ?t1)" "Some (run_interval ?t1)" now w] by simp
  next
    case False
    then show ?thesis by simp
  qed
  then obtain w1 where s: "?saved = Done w1" by blast
  from assms(1) True s have pr: "prune_checkpoints ?t1 w1 = Done w'"
    by (auto simp: save_checkpoint_def Let_def split: outcome.splits if_splits)
  have "map_of (files w1) p = map_of (files w) p"
  proof (cases "checkpoint_due force now t")
    case False
    then show ?thesis using s by simp
  next
    case due: True
    with s have "save (t\<lparr>last_checkpoint := Some now\<rparr>) (FormatName ''json'') (Some (checkpoint_fname sp now))
                       (Some (checkpoint_dir t)) (Some (run_interval (t\<lparr>last_checkpoint := Some now\<rparr>))) now w = Done w1"
      by simp
    from save_json_files[OF this] assms(3) show ?thesis
      by (auto simp: update_conv' split: if_splits)
  qed
  with prune_keeps_full[OF pr assms(2)] show ?thesis by simp
qed

lemma save_checkpoint_forced_file:
  assumes "save_checkpoint True sp now (t, w) = Done (t', w')"
    and "save_mode t = ''continuous''" and "checkpoint_interval t \<noteq> None"
    and "checkpoint_dir t \<in> set (dirs w)"
    and "(checkpoint_dir t, checkpoint_fname sp now @ ''.json'') \<notin> set (protected w)"
    and "is_full_checkpoint (checkpoint_dir t, checkpoint_fname sp now @ ''.json'')"
  shows "map_of (files w') (checkpoint_dir t, checkpoint_fname sp now @ ''.json'') =
         Some \<lparr>mtime = dt_micros now,
               content = JsonDoc (JArray (map asdict_json (py_slice (run_interval t) (data_points t))))\<rparr>"
proof -
  let ?t1 = "t\<lparr>last_checkpoint := Some now\<rparr>"
  let ?p = "(checkpoint_dir t, checkpoint_fname sp now @ ''.json'')"
  obtain w1 where s: "save ?t1 (FormatName ''json'') (Some (checkpoint_fname sp now))
                       (Some (checkpoint_dir t)) (Some (run_interval ?t1)) now w = Done w1"
    using save_Done by blast
  from assms(1-3) s have pr: "prune_checkpoints ?t1 w1 = Done w'"
    by (auto simp: save_checkpoint_def Let_def checkpoint_due_force split: outcome.splits)
  from save_json_files[OF s] assms(4,5)
  have "map_of (files w1) ?p = Some \<lparr>mtime = dt_micros now,
               content = JsonDoc (JArray (map asdict_json (py_slice (run_interval t) (data_points t))))\<rparr>"
    by (simp add: update_conv' select_interval_def run_interval_def)
  with prune_keeps_full[OF pr assms(6)] show ?thesis by simp
qed

lemma save_checkpoint_files_off:
  "\<not> (save_mode (fst tw) = ''continuous'' \<and> checkpoint_interval (fst tw) \<noteq> None) \<Longrightarrow>
   save_checkpoint force sp now tw = Done tw"
  by (auto simp: save_checkpoint_def Let_def)

lemma length_stamp: "length (strftime_stamp d) = 15"
  by (simp add: strftime_stamp_def zpad4_def zpad2_def)

lemma full_name_is_full: "is_full_checkpoint (d, checkpoint_fname (Some ''-full'') now @ ''.json'')"
  by (simp add: is_full_checkpoint_def checkpoint_fname_def endswith_def length_stamp)

lemma remove_datapoints_files: "files (snd (remove_datapoints s f tw)) = files (snd tw)"
  by (simp add: remove_datapoints_def Let_def)

lemma save_checkpoint_modes:
  "save_mode (fst (state_of (save_checkpoint force sp now tw))) = save_mode (fst tw) \<and>
   checkpoint_interval (fst (state_of (save_checkpoint force sp now tw))) = checkpoint_interval (fst tw) \<and>
   checkpoint_dir (fst (state_of (save_checkpoint force sp now tw))) = checkpoint_dir (fst tw)"
  by (auto simp: save_checkpoint_def Let_def split: outcome.splits)

lemma remove_datapoints_modes:
  "save_mode (fst (remove_datapoints s f tw)) = save_mode (fst tw) \<and>
   checkpoint_interval (fst (remove_datapoints s f tw)) = checkpoint_interval (fst tw) \<and>
   checkpoint_dir (fst (remove_datapoints s f tw)) = checkpoint_dir (fst tw)"
  by (simp add: remove_datapoints_def Let_def)

lemma handle_overflow_unfold:
  assumes "handle_overflow n1 (t, w) = Done tw1"
    and "real (length (data_points t)) > max_datapoints t"
  shows "\<exists>t2 w2. save_checkpoint True (Some ''-full'') n1 (t, logmsg WARNING ''maximum number of datapoints reached'' w) = Done (t2, w2)
           \<and> tw1 = remove_datapoints 0 ((real (length (data_points t2)) - 1) / real (length (data_points t2))) (t2, w2)"
proof -
  let ?r = "save_checkpoint True (Some ''-full'') n1 (t, logmsg WARNING ''maximum number of datapoints reached'' w)"
  from assms obtain tw2 where "?r = Done tw2"
    and "tw1 = remove_datapoints 0 ((real (length (data_points (fst tw2))) - 1) / real (length (data_points (fst tw2)))) tw2"
    by (cases ?r) (auto simp: handle_overflow_def Let_def split: if_splits)
  then show ?thesis by (cases tw2) auto
qed

lemma add_point_unfold:
  assumes "add_point ts data n1 n2 (t, w) = Done (t', w')"
  shows "\<exists>t1 w1. handle_overflow n1 (t, w) = Done (t1, w1) \<and>
           save_checkpoint False None n2 (t1\<lparr>data_points := data_points t1 @ [preprocess t1 ts data]\<rparr>, w1) = Done (t', w')"
proof -
  from assms have ok: "schema_ok t data"
    by (auto simp: add_point_def split: if_splits)
  from assms ok obtain tw1 where h: "handle_overflow n1 (t, w) = Done tw1"
    by (cases "handle_overflow n1 (t, w)") (auto simp: add_point_def)
  with assms ok show ?thesis by (cases tw1) (simp add: add_point_def Let_def)
qed

text \<open>
  What an overflowing call does, in general. When the buffer is longer than
  \<open>max_datapoints\<close> and \<open>add_point\<close> returns, the buffer afterwards holds the last old
  sample and the new one. A file tagged \<open>-full\<close> is written only in save mode
  \<open>continuous\<close> with a checkpoint interval configured, and it holds the slice
  \<open>slice(_save_interval_start, len - 1)\<close> of the old buffer; in every other save mode
  the call leaves the files untouched.
\<close>

lemma add_point_overflow:
  assumes ov: "real (length (data_points t)) > max_datapoints t"
    and ap: "add_point ts data n1 n2 (t, w) = Done (t', w')"
  shows "data_points t' = [last (data_points t), preprocess t ts data] \<and>
         (save_mode t = ''continuous'' \<and> checkpoint_interval t \<noteq> None \<and>
          checkpoint_dir t \<in> set (dirs w) \<and>
          (checkpoint_dir t, strftime_stamp n1 @ ''-full.chk.json'') \<notin> set (protected w) \<longrightarrow>
            map_of (files w') (checkpoint_dir t, strftime_stamp n1 @ ''-full.chk.json'') =
              Some \<lparr>mtime = dt_micros n1,
                    content = JsonDoc (JArray (map asdict_json (py_slice (run_interval t) (data_points t))))\<rparr>) \<and>
         (\<not> (save_mode t = ''continuous'' \<and> checkpoint_interval t \<noteq> None) \<longrightarrow> files w' = files w)"
proof -
  let ?w0 = "logmsg WARNING ''maximum number of datapoints reached'' w"
  let ?p0 = "(checkpoint_dir t, checkpoint_fname (Some ''-full'') n1 @ ''.json'')"
  have p0: "?p0 = (checkpoint_dir t, strftime_stamp n1 @ ''-full.chk.json'')"
    by (simp add: checkpoint_fname_def)
  from add_point_unfold[OF ap] obtain t1 w1 where h: "handle_overflow n1 (t, w) = Done (t1, w1)"
    and cl: "save_checkpoint False None n2 (t1\<lparr>data_points := data_points t1 @ [preprocess t1 ts data]\<rparr>, w1) = Done (t', w')"
    by blast
  from handle_overflow_unfold[OF h ov] obtain t2 w2
    where fc: "save_checkpoint True (Some ''-full'') n1 (t, ?w0) = Done (t2, w2)"
      and tr: "(t1, w1) = remove_datapoints 0 ((real (length (data_points t2)) - 1) / real (length (data_points t2))) (t2, w2)"
    by blast
  have m2: "save_mode t2 = save_mode t \<and> checkpoint_interval t2 = checkpoint_interval t \<and> checkpoint_dir t2 = checkpoint_dir t"
    using save_checkpoint_modes[of True "Some ''-full''" n1 "(t, ?w0)"] fc by simp
  let ?f = "(real (length (data_points t2)) - 1) / real (length (data_points t2))"
  have t1: "t1 = fst (remove_datapoints 0 ?f (t2, w2))" and w1: "w1 = snd (remove_datapoints 0 ?f (t2, w2))"
    using arg_cong[OF tr, of fst] arg_cong[OF tr, of snd] by simp_all
  have m1: "save_mode t1 = save_mode t \<and> checkpoint_interval t1 = checkpoint_interval t \<and> checkpoint_dir t1 = checkpoint_dir t"
    using remove_datapoints_modes[of 0 ?f "(t2, w2)"] m2 by (simp add: t1)
  have f1: "files w1 = files w2"
    using remove_datapoints_files[of 0 ?f "(t2, w2)"] by (simp add: w1)
  have dp: "data_points t' = [last (data_points t), preprocess t ts data]"
    using add_point_Done[OF ap] handle_overflow_Done(3)[OF h] ov h by auto
  have on: "map_of (files w') ?p0 = Some \<lparr>mtime = dt_micros n1,
                    content = JsonDoc (JArray (map asdict_json (py_slice (run_interval t) (data_points t))))\<rparr>"
    if c: "save_mode t = ''continuous''" "checkpoint_interval t \<noteq> None" "checkpoint_dir t \<in> set (dirs w)"
          "?p0 \<notin> set (protected w)"
  proof -
    have "map_of (files w2) ?p0 = Some \<lparr>mtime = dt_micros n1,
                    content = JsonDoc (JArray (map asdict_json (py_slice (run_interval t) (data_points t))))\<rparr>"
      using save_checkpoint_forced_file[OF fc c(1) c(2) _ _ full_name_is_full] c(3) c(4) by simp
    moreover have "length (snd ?p0) \<noteq> length (checkpoint_fname None n2 @ ''.json'')"
      by (simp add: checkpoint_fname_def length_stamp)
    then have "?p0 \<noteq> (checkpoint_dir (t1\<lparr>data_points := data_points t1 @ [preprocess t1 ts data]\<rparr>), checkpoint_fname None n2 @ ''.json'')"
      by auto
    from save_checkpoint_other_full[OF cl full_name_is_full this]
    have "map_of (files w') ?p0 = map_of (files w1) ?p0" .
    ultimately show ?thesis using f1 by simp
  qed
  have off: "files w' = files w" if c: "\<not> (save_mode t = ''continuous'' \<and> checkpoint_interval t \<noteq> None)"
  proof -
    have "(t2, w2) = (t, ?w0)" using save_checkpoint_files_off[of "(t, ?w0)" True "Some ''-full''" n1] c fc by simp
    then have "files w1 = files w" using f1 by simp
    moreover have "(t', w') = (t1\<lparr>data_points := data_points t1 @ [preprocess t1 ts data]\<rparr>, w1)"
      using save_checkpoint_files_off[of "(t1\<lparr>data_points := data_points t1 @ [preprocess t1 ts data]\<rparr>, w1)" False None n2] c m1 cl by simp
    ultimately show ?thesis by simp
  qed
  show ?thesis using dp on off p0 by simp
qed

text \<open>
  C2. The docstring of \<open>add_point\<close> promises that on overflow the points are deleted
  from memory after a checkpoint tagged \<open>-full\<close> has been saved, and the warning it
  logs says so; the claim adds that this holds in every save mode. The code does not do
  it. In the default save mode \<open>on-demand\<close> the track of three samples below, with
  \<open>max_datapoints = 2\<close>, takes a fourth sample: the call returns, the buffer holds the
  third and the fourth sample, and the disk holds no file at all, so the first two
  samples are lost. After \<open>start_run\<close> on the same track a file tagged \<open>-full\<close> is
  written by the overflowing call, but it holds the slice
  \<open>slice(_save_interval_start, len - 1)\<close> with the start index that \<open>start_run\<close>
  recorded before it trimmed the buffer: the file is empty, and the samples wiped from
  the buffer are on no file.
\<close>

theorem add_point_overflow_unsaved:
  "real (length (data_points (full_track\<lparr>save_mode := ''on-demand''\<rparr>)))
     > max_datapoints (full_track\<lparr>save_mode := ''on-demand''\<rparr>) \<and>
   add_point (noon\<lparr>second := 4\<rparr>) [(''a'', JInt 4)] noon noon (full_track\<lparr>save_mode := ''on-demand''\<rparr>, demo_world)
     = Done (full_track\<lparr>save_mode := ''on-demand'', data_points := [sample_at 3, sample_at 4]\<rparr>,
             demo_world\<lparr>log := [(WARNING, ''maximum number of datapoints reached''),
                                  (INFO, ''cleared data points'')]\<rparr>) \<and>
   data_points (fst (start_run (full_track\<lparr>save_mode := ''on-demand''\<rparr>, demo_world))) = [sample_at 2, sample_at 3] \<and>
   save_interval_start (fst (start_run (full_track\<lparr>save_mode := ''on-demand''\<rparr>, demo_world))) = Some 2 \<and>
   map (\<lambda>r. (returned r, data_points (fst (state_of r)),
               map (\<lambda>(p, f). (p, content f)) (files (snd (state_of r)))))
     (add_points [(noon\<lparr>second := 4\<rparr>, [(''a'', JInt 4)], noon, noon),
                  (noon\<lparr>second := 5\<rparr>, [(''a'', JInt 5)], noon\<lparr>second := 1\<rparr>, noon\<lparr>second := 1\<rparr>)]
        (start_run (full_track\<lparr>save_mode := ''on-demand''\<rparr>, demo_world)))
   = [(True, [sample_at 2, sample_at 3, sample_at 4],
       [((''data/chk'', ''20240517-120000.chk.json''), JsonDoc (JArray []))]),
      (True, [sample_at 4, sample_at 5],
       [((''data/chk'', ''20240517-120000.chk.json''), JsonDoc (JArray [])),
        ((''data/chk'', ''20240517-120001-full.chk.json''), JsonDoc (JArray []))])]"
  by (simp add: full_track_def start_run_def eval_defs)

lemma and_then_Done: "and_then r f = Done y \<Longrightarrow> \<exists>x. r = Done x \<and> f x = Done y"
  by (cases r) auto












text \<open>
  C3. With three samples in the buffer and the run starting at index 0, both the final
  export of \<open>end_run\<close> and a checkpoint hold the first two samples only: the slice
  ends at \<open>len(self.data_points) - 1\<close>, which excludes the last sample.
\<close>

theorem end_run_omits_last_sample:
  "data_points (full_track\<lparr>save_interval_start := Some 0\<rparr>) = [sample_at 1, sample_at 2, sample_at 3] \<and>
   map (\<lambda>(p, f). (p, content f))
     (files (snd (state_of (end_run noon (full_track\<lparr>save_interval_start := Some 0\<rparr>, demo_world)))))
   = [((''data'', ''20240517-120000.json''), JsonDoc (JArray (map asdict_json [sample_at 1, sample_at 2])))] \<and>
   map (\<lambda>(p, f). (p, content f))
     (files (snd (state_of (save_checkpoint True None noon (full_track\<lparr>save_interval_start := Some 0\<rparr>, demo_world)))))
   = [((''data/chk'', ''20240517-120000.chk.json''), JsonDoc (JArray (map asdict_json [sample_at 1, sample_at 2])))]"
  by (simp add: full_track_def end_run_def remove_all.simps eval_defs)

text \<open>C10. \<open>get_latest_data\<close> returns the empty list on an empty buffer and raises
  \<open>AttributeError\<close> for the attribute \<open>data\<close> on every other buffer.\<close>

theorem get_latest_data_raises:
  "get_latest_data t =
     (if data_points t = [] then Inr [] else Inl (AttributeError ''data''))"
  by (cases "data_points t") (simp_all add: get_latest_data_def datapoint_getattr_def)

theorem get_latest_data_raises_witness:
  "get_latest_data (demo_track\<lparr>data_points := [sample_at 1]\<rparr>) = Inl (AttributeError ''data'')
   \<and> get_latest_data demo_track = Inr []"
  using get_latest_data_raises[of "demo_track\<lparr>data_points := [sample_at 1]\<rparr>"]
    get_latest_data_raises[of demo_track]
  by (simp add: demo_track_def)

subsection \<open>Export and load\<close>

lemma digit_roundtrip: "d < 10 \<Longrightarrow> digit_val (digit_char d) = Some d"
proof -
  assume "d < 10"
  then have "d = 0 \<or> d = 1 \<or> d = 2 \<or> d = 3 \<or> d = 4 \<or> d = 5 \<or> d = 6 \<or> d = 7 \<or> d = 8 \<or> d = 9"
    by arith
  then show ?thesis by (elim disjE) (simp_all add: digit_val_def digit_char_def)
qed

lemma parse_two: "a < 10 \<Longrightarrow> b < 10 \<Longrightarrow> parse_digits acc [digit_char a, digit_char b] = Some ((acc * 10 + a) * 10 + b)"
  by (simp add: digit_roundtrip)

lemma parse_zpad2: "n < 100 \<Longrightarrow> parse_nat (zpad2 n) = Some n"
proof -
  assume n: "n < 100"
  have "parse_digits 0 [digit_char (n div 10 mod 10), digit_char (n mod 10)] = Some ((0 * 10 + n div 10 mod 10) * 10 + n mod 10)"
    by (rule parse_two) simp_all
  moreover from n have "(0 * 10 + n div 10 mod 10) * 10 + n mod 10 = n" by simp
  ultimately show ?thesis by (simp add: parse_nat_def zpad2_def)
qed

lemma parse_digits_append:
  "parse_digits acc (xs @ ys) = (case parse_digits acc xs of None \<Rightarrow> None | Some v \<Rightarrow> parse_digits v ys)"
  by (induction xs arbitrary: acc) (auto split: option.splits)

lemma parse_digits_zpad2: "parse_digits acc (zpad2 n) = Some (acc * 100 + n mod 100)"
proof -
  have "parse_digits acc [digit_char (n div 10 mod 10), digit_char (n mod 10)] = Some ((acc * 10 + n div 10 mod 10) * 10 + n mod 10)"
    by (rule parse_two) simp_all
  moreover have "n mod 100 = 10 * (n div 10 mod 10) + n mod 10"
    using mod_mult2_eq[of n 10 10] by simp
  then have "(acc * 10 + n div 10 mod 10) * 10 + n mod 10 = acc * 100 + n mod 100"
    by (simp add: algebra_simps)
  ultimately show ?thesis by (simp add: zpad2_def)
qed

lemma parse_zpad4: "n < 10000 \<Longrightarrow> parse_nat (zpad4 n) = Some n"
proof -
  assume n: "n < 10000"
  have "parse_digits 0 (zpad4 n) = Some ((n div 100) mod 100 * 100 + n mod 100)"
    by (simp add: zpad4_def parse_digits_append parse_digits_zpad2)
  moreover from n have "(n div 100) mod 100 * 100 + n mod 100 = n" by simp
  moreover have "zpad4 n \<noteq> []" by (simp add: zpad4_def zpad2_def)
  ultimately show ?thesis by (simp add: parse_nat_def)
qed

lemma parse_zpad6: "n < 1000000 \<Longrightarrow> parse_nat (zpad6 n) = Some n"
proof -
  assume n: "n < 1000000"
  have p: "parse_digits 0 (zpad6 n) = Some (((n div 10000) mod 100 * 100 + (n div 100) mod 100) * 100 + n mod 100)"
    by (simp add: zpad6_def zpad4_def parse_digits_append parse_digits_zpad2)
  have e: "((n div 10000) mod 100 * 100 + (n div 100) mod 100) * 100 + n mod 100 = n"
  proof -
    from n have "n div 10000 < 100" by simp
    then have a: "(n div 10000) mod 100 = n div 10000" by simp
    have "n div 100 div 100 = n div 10000"
      using div_mult2_eq[of n 100 100] by simp
    then have b: "n div 10000 * 100 + (n div 100) mod 100 = n div 100"
      using div_mult_mod_eq[of "n div 100" 100] by simp
    have c: "n div 100 * 100 + n mod 100 = n" by (rule div_mult_mod_eq)
    show ?thesis unfolding a b by (rule c)
  qed
  have "parse_digits 0 (zpad6 n) = Some n" using p unfolding e .
  moreover have "zpad6 n \<noteq> []" by (simp add: zpad6_def zpad2_def)
  ultimately show ?thesis by (simp add: parse_nat_def)
qed

lemma len_zpad [simp]: "length (zpad2 n) = 2" "length (zpad4 n) = 4" "length (zpad6 n) = 6"
  by (simp_all add: zpad2_def zpad4_def zpad6_def)

lemma parse_time_hms:
  assumes "h < 100" "mi < 100" "s < 100"
  shows "parse_time (zpad2 h @ '':'' @ zpad2 mi @ '':'' @ zpad2 s) = Some (h, mi, s, 0)"
proof -
  let ?str = "zpad2 h @ '':'' @ zpad2 mi @ '':'' @ zpad2 s"
  have l: "length ?str = 8" by simp
  have t1: "take 2 ?str = zpad2 h" by simp
  have t2: "take 2 (drop 3 ?str) = zpad2 mi" by simp
  have t3: "take 2 (drop 6 ?str) = zpad2 s" by simp
  have s1: "?str ! 2 = CHR '':''" "?str ! 5 = CHR '':''" by (simp_all add: nth_append)
  show ?thesis
    unfolding parse_time_def Let_def l t1 t2 t3
    using assms s1 by (simp add: parse_zpad2)
qed

lemma parse_time_hmsu:
  assumes "h < 100" "mi < 100" "s < 100" "u < 1000000"
  shows "parse_time (zpad2 h @ '':'' @ zpad2 mi @ '':'' @ zpad2 s @ ''.'' @ zpad6 u) = Some (h, mi, s, u)"
proof -
  let ?str = "zpad2 h @ '':'' @ zpad2 mi @ '':'' @ zpad2 s @ ''.'' @ zpad6 u"
  have l: "length ?str = 15" by simp
  have t1: "take 2 ?str = zpad2 h" by simp
  have t2: "take 2 (drop 3 ?str) = zpad2 mi" by simp
  have t3: "take 2 (drop 6 ?str) = zpad2 s" by simp
  have t4: "drop 9 ?str = zpad6 u" by simp
  have s1: "?str ! 2 = CHR '':''" "?str ! 5 = CHR '':''" "?str ! 8 = CHR ''.''" by (simp_all add: nth_append)
  show ?thesis
    unfolding parse_time_def Let_def l t1 t2 t3 t4
    using assms s1 by (simp add: parse_zpad2 parse_zpad6)
qed

lemma fromisoformat_str:
  assumes v: "valid_datetime d"
  shows "fromisoformat (str_datetime d) = Inr d"
proof -
  from v have y: "year d < 10000" and m: "month d < 100" and da: "day d < 100"
    and h: "hour d < 100" and mi: "minute d < 100" and se: "second d < 100"
    and u: "microsecond d < 1000000"
    by (auto simp: valid_datetime_def days_in_month_def split: if_splits)
  define tm where "tm = zpad2 (hour d) @ '':'' @ zpad2 (minute d) @ '':'' @ zpad2 (second d) @
     (if microsecond d = 0 then [] else ''.'' @ zpad6 (microsecond d))"
  have str: "str_datetime d = zpad4 (year d) @ ''-'' @ zpad2 (month d) @ ''-'' @ zpad2 (day d) @ '' '' @ tm"
    by (simp add: str_datetime_def isoformat_sep_def tm_def)
  let ?s = "zpad4 (year d) @ ''-'' @ zpad2 (month d) @ ''-'' @ zpad2 (day d) @ '' '' @ tm"
  have ltm: "length tm = 8 \<or> length tm = 15" by (simp add: tm_def)
  have pt: "parse_time tm = Some (hour d, minute d, second d, microsecond d)"
  proof (cases "microsecond d = 0")
    case True
    then show ?thesis using parse_time_hms[OF h mi se] by (simp add: tm_def)
  next
    case False
    then show ?thesis using parse_time_hmsu[OF h mi se u] by (simp add: tm_def)
  qed
  have l: "\<not> (length ?s < 10 \<or> length ?s = 11)" "length ?s \<noteq> 10" using ltm by auto
  have c: "?s ! 4 = CHR ''-''" "?s ! 7 = CHR ''-''" by (simp_all add: nth_append)
  have t: "take 4 ?s = zpad4 (year d)" "take 2 (drop 5 ?s) = zpad2 (month d)"
    "take 2 (drop 8 ?s) = zpad2 (day d)" "drop 11 ?s = tm" by simp_all
  have r: "\<lparr>year = year d, month = month d, day = day d, hour = hour d, minute = minute d,
            second = second d, microsecond = microsecond d\<rparr> = d" by simp
  show ?thesis
    unfolding str fromisoformat_def Let_def
    using l c v by (simp only: t pt parse_zpad4[OF y] parse_zpad2[OF m] parse_zpad2[OF da] r) (simp add: valid_datetime_def)
qed

lemma load_datapoint_asdict:
  "valid_datetime (timestamp dp) \<Longrightarrow> load_datapoint (asdict_json dp) = Inr dp"
  by (simp add: load_datapoint_def asdict_json_def fromisoformat_str)

lemma load_datapoints_asdict:
  "list_all (\<lambda>dp. valid_datetime (timestamp dp)) dps \<Longrightarrow> load_datapoints (map asdict_json dps) = Inr dps"
  by (induction dps) (simp_all add: load_datapoint_asdict)

text \<open>
  C9. When \<open>export_to_json\<close> has written a list of samples (with no interval) to a
  file, \<open>Track.load\<close> of that file puts exactly that list into the buffer, in order,
  with the same timestamps and the same field maps, and switches the track to replay
  mode. It holds for every list of samples with proper timestamps, empty or not, whatever
  JSON values the fields hold.
\<close>

theorem json_round_trip:
  assumes "export_to_json dps filename None now w = Done w'"
    and "list_all (\<lambda>dp. valid_datetime (timestamp dp)) dps"
  shows "load filename (t, w') = Done (t\<lparr>data_points := dps, mode := ''replay''\<rparr>, w')"
proof -
  from assms(1) have "files w' = AList.update filename
        \<lparr>mtime = dt_micros now, content = JsonDoc (JArray (map asdict_json dps))\<rparr> (files w)"
    by (auto simp: export_to_json_def select_interval_def write_file_def split: if_splits)
  then have "map_of (files w') filename =
        Some \<lparr>mtime = dt_micros now, content = JsonDoc (JArray (map asdict_json dps))\<rparr>"
    by (simp add: update_conv')
  then show ?thesis
    using load_datapoints_asdict[OF assms(2)] by (simp add: load_def)
qed

theorem json_round_trip_witness:
  "returned (export_to_json [sample_at 1, sample_at 2] (''data'', ''t.json'') None noon demo_world) \<and>
   list_all (\<lambda>dp. valid_datetime (timestamp dp)) [sample_at 1, sample_at 2] \<and>
   load (''data'', ''t.json'')
     (demo_track, state_of (export_to_json [sample_at 1, sample_at 2] (''data'', ''t.json'') None noon demo_world))
   = Done (demo_track\<lparr>data_points := [sample_at 1, sample_at 2], mode := ''replay''\<rparr>,
           state_of (export_to_json [sample_at 1, sample_at 2] (''data'', ''t.json'') None noon demo_world))"
proof -
  have e: "export_to_json [sample_at 1, sample_at 2] (''data'', ''t.json'') None noon demo_world =
           Done (state_of (export_to_json [sample_at 1, sample_at 2] (''data'', ''t.json'') None noon demo_world))"
    by (simp add: export_to_json_def write_file_def demo_world_def Let_def)
  have v: "list_all (\<lambda>dp. valid_datetime (timestamp dp)) [sample_at 1, sample_at 2]"
    by (simp add: sample_at_def noon_def valid_datetime_def days_in_month_def)
  have r: "returned (export_to_json [sample_at 1, sample_at 2] (''data'', ''t.json'') None noon demo_world)"
    by (simp add: export_to_json_def write_file_def demo_world_def Let_def)
  from json_round_trip[OF e v, of demo_track] r v show ?thesis by simp
qed

subsection \<open>The index\<close>

lemmas index_defs =
  load_tracks_incrementally_def found_files_def path_glob_def endswith_def in_found_def
  tinydb_remove_def tinydb_insert_def tinydb_update_def filename_is_def
  storage_write_def flush_def WRITE_CACHE_SIZE_def serialisable_def
  existing_exports_def export_methods_def path_stem_def base_name_def is_dirty_def
  track_path_def file_meta_def extract_all_def dict_update_def validate_json_def
  valid_track_json_def valid_item_def is_scalar_def sync_file_def path_join_def
  asdict_json_def str_datetime_def isoformat_sep_def zpad4_def zpad2_def digit_char_def
  index_world_def index_db_def stale_db_def merged_db_def busy_db_def track_file_def
  sample_at_def noon_def records_of_def Let_def

lemma storage_write_table: "table (state_of (storage_write docs s)) = docs"
  by (simp add: storage_write_def flush_def Let_def)

lemma storage_write_Done: "storage_write docs s = Done s1 \<Longrightarrow> table s1 = docs"
  using storage_write_table[of docs s] by simp

lemma last_doc_Cons:
  "last_doc (t # ts) k = (case last_doc ts k of Some t' \<Rightarrow> Some t' | None \<Rightarrow> if filename_is k t then Some t else None)"
  by (auto simp: last_doc_def)

lemma last_doc_Nil [simp]: "last_doc [] k = None"
  by (simp add: last_doc_def)

lemma last_doc_filename: "last_doc docs k = Some t \<Longrightarrow> filename_is k t"
proof -
  assume a: "last_doc docs k = Some t"
  then have ne: "filter (filename_is k) docs \<noteq> []" and t: "t = last (filter (filename_is k) docs)"
    by (auto simp: last_doc_def split: if_splits)
  from ne have "last (filter (filename_is k) docs) \<in> set (filter (filename_is k) docs)" by (rule last_in_set)
  with t show ?thesis by simp
qed

lemma last_doc_cong:
  "filter (filename_is k) docs = filter (filename_is k) docs' \<Longrightarrow> last_doc docs k = last_doc docs' k"
  by (simp add: last_doc_def)

lemma existing_tracks_lookup:
  "existing_tracks docs acc = Inr ex \<Longrightarrow>
   map_of ex k = (case last_doc docs k of None \<Rightarrow> map_of acc k | Some t \<Rightarrow> Some t)"
proof (induction docs arbitrary: acc)
  case Nil
  then show ?case by simp
next
  case (Cons t ts)
  from Cons.prems obtain name where n: "map_of t ''filename'' = Some name"
    and r: "existing_tracks ts (AList.update name t acc) = Inr ex"
    by (auto split: option.splits pyobject.splits json.splits)
  have fi: "filename_is k t \<longleftrightarrow> k = name" using n by (auto simp: filename_is_def)
  from Cons.IH[OF r] show ?case
    by (auto simp: last_doc_Cons fi update_conv' split: option.splits)
qed

lemma remove_missing_Done:
  "remove_missing found names (s, ex) = Done (s1, ex1) \<Longrightarrow>
   table s1 = filter (\<lambda>doc. \<forall>n \<in> set names. in_found found n \<or> \<not> filename_is n doc) (table s) \<and>
   (\<forall>k. map_of ex1 k = (if k \<in> set names \<and> \<not> in_found found k then None else map_of ex k))"
proof (induction names arbitrary: s ex)
  case Nil
  then show ?case by simp
next
  case (Cons n names)
  show ?case
  proof (cases "in_found found n")
    case True
    with Cons.prems have "remove_missing found names (s, ex) = Done (s1, ex1)" by simp
    from Cons.IH[OF this] True show ?thesis by (auto intro: filter_cong)
  next
    case False
    with Cons.prems obtain s' where rm: "tinydb_remove n s = Done s'"
      and rest: "remove_missing found names (s', AList.delete n ex) = Done (s1, ex1)"
      by (cases "tinydb_remove n s") auto
    have t': "table s' = filter (\<lambda>doc. \<not> filename_is n doc) (table s)"
      using storage_write_Done[OF rm[unfolded tinydb_remove_def]] .
    from Cons.IH[OF rest] False show ?thesis
      unfolding t' by (auto simp: delete_conv' intro: filter_cong)
  qed
qed

lemma dict_update_map_of: "map_of (dict_update doc new) = map_of doc ++ map_of (rev new)"
proof (induction new arbitrary: doc)
  case Nil
  show ?case by (simp add: dict_update_def)
next
  case (Cons kv new)
  obtain k v where kv: "kv = (k, v)" by (cases kv)
  have "dict_update doc (kv # new) = dict_update (AList.update k v doc) new"
    by (simp add: dict_update_def kv)
  then have "map_of (dict_update doc (kv # new)) = map_of (AList.update k v doc) ++ map_of (rev new)"
    using Cons.IH by simp
  also have "\<dots> = map_of doc ++ map_of (rev (kv # new))"
    by (simp add: kv update_conv' map_add_upd_left fun_eq_iff map_add_def split: option.splits)
  finally show ?case .
qed

lemma file_meta_filename: "map_of (file_meta d w xe f mt) ''filename'' = Some (Plain (JString f))"
  by (simp add: file_meta_def Let_def dict_update_map_of update_conv' split: option.splits)

lemma file_meta_exports:
  "map_of xe (base_name f) = Some exts \<Longrightarrow>
   map_of (file_meta d w xe f mt) ''exports'' = Some (Plain (JArray (map JString exts)))"
  by (simp add: file_meta_def Let_def update_conv')

lemma file_meta_no_exports:
  "map_of xe (base_name f) = None \<Longrightarrow>
   map_of (file_meta d w xe f mt) ''exports'' = map_of (extract_all d (track_path d f) w) ''exports''"
  by (simp add: file_meta_def Let_def dict_update_map_of)

lemma map_of_rev_distinct: "distinct (map fst xs) \<Longrightarrow> map_of (rev xs) = map_of xs"
proof (induction xs)
  case Nil
  show ?case by simp
next
  case (Cons x xs)
  obtain a b where x: "x = (a, b)" by (cases x)
  from Cons.prems x have "map_of xs a = None" by (simp add: map_of_eq_None_iff)
  with Cons show ?case
    by (auto simp: x fun_eq_iff map_add_def split: option.splits)
qed

lemma dict_update_distinct: "distinct (map fst doc) \<Longrightarrow> distinct (map fst (dict_update doc new))"
proof (induction new arbitrary: doc)
  case Nil
  then show ?case by (simp add: dict_update_def)
next
  case (Cons kv new)
  obtain k v where kv: "kv = (k, v)" by (cases kv)
  have "dict_update doc (kv # new) = dict_update (AList.update k v doc) new"
    by (simp add: dict_update_def kv)
  with Cons.IH[of "AList.update k v doc"] Cons.prems show ?case by (simp add: distinct_update)
qed

lemma file_meta_distinct: "distinct (map fst (file_meta d w xe f mt))"
  by (auto simp: file_meta_def extract_all_def Let_def intro!: dict_update_distinct distinct_update
      split: option.splits file_content.splits)

lemma dict_update_meta:
  "map_of (dict_update doc (file_meta d w xe f mt)) k =
   (case map_of (file_meta d w xe f mt) k of Some v \<Rightarrow> Some v | None \<Rightarrow> map_of doc k)"
  by (simp add: dict_update_map_of map_of_rev_distinct[OF file_meta_distinct] map_add_def)

lemma upd_filename:
  "filename_is k (dict_update doc (file_meta d w xe f mt)) \<longleftrightarrow> k = Plain (JString f)"
  by (auto simp: filename_is_def dict_update_meta file_meta_filename)

lemma filter_map_same:
  "(\<And>x. x \<in> set xs \<Longrightarrow> P (h x) = P x \<and> (P x \<longrightarrow> h x = x)) \<Longrightarrow> filter P (map h xs) = filter P xs"
  by (induction xs) auto

lemma recs_update_other:
  assumes "g \<noteq> Plain (JString f)"
  shows "filter (filename_is g)
           (map (\<lambda>doc. if filename_is (Plain (JString f)) doc then dict_update doc (file_meta d w xe f mt) else doc) docs)
         = filter (filename_is g) docs"
proof (rule filter_map_same)
  fix x
  show "filename_is g (if filename_is (Plain (JString f)) x then dict_update x (file_meta d w xe f mt) else x) = filename_is g x \<and>
        (filename_is g x \<longrightarrow> (if filename_is (Plain (JString f)) x then dict_update x (file_meta d w xe f mt) else x) = x)"
    using assms by (auto simp: upd_filename) (auto simp: filename_is_def)
qed

lemma recs_update_same:
  "filter (filename_is (Plain (JString f)))
     (map (\<lambda>doc. if filename_is (Plain (JString f)) doc then dict_update doc (file_meta d w xe f mt) else doc) docs)
   = map (\<lambda>doc. dict_update doc (file_meta d w xe f mt)) (filter (filename_is (Plain (JString f))) docs)"
  by (induction docs) (auto simp: upd_filename)

lemma recs_step_other:
  assumes "g \<noteq> Plain (JString f)"
  shows "filter (filename_is g) (table (state_of (sync_file d w ex xe (f, mt) s))) = filter (filename_is g) (table s)"
proof -
  have ins: "\<not> filename_is g (file_meta d w xe f mt)"
    using assms file_meta_filename[of d w xe f mt] by (auto simp: filename_is_def)
  show ?thesis
    by (auto simp: sync_file_def Let_def tinydb_insert_def tinydb_update_def storage_write_table
          ins recs_update_other[OF assms] split: sum.splits option.splits)
qed

lemma recs_loop_other:
  assumes "\<And>f. f \<in> fst ` set items \<Longrightarrow> g \<noteq> Plain (JString f)"
  shows "filter (filename_is g) (table (state_of (sync_files d w ex xe items s))) = filter (filename_is g) (table s)"
  using assms
proof (induction items arbitrary: s)
  case Nil
  show ?case by simp
next
  case (Cons item items)
  obtain f mt where item: "item = (f, mt)" by (cases item)
  have gf: "g \<noteq> Plain (JString f)" using Cons.prems[of f] item by simp
  have rest: "\<And>f'. f' \<in> fst ` set items \<Longrightarrow> g \<noteq> Plain (JString f')" using Cons.prems by auto
  show ?case
  proof (cases "sync_file d w ex xe (f, mt) s")
    case (Done s1)
    then have "filter (filename_is g) (table s1) = filter (filename_is g) (table s)"
      using recs_step_other[OF gf, of d w ex xe mt s] by simp
    then show ?thesis using Done Cons.IH[OF rest, of s1] by (simp add: item)
  next
    case (Raised e s1)
    then have "filter (filename_is g) (table s1) = filter (filename_is g) (table s)"
      using recs_step_other[OF gf, of d w ex xe mt s] by simp
    then show ?thesis using Raised by (simp add: item)
  qed
qed

lemma fold_update_distinct:
  "distinct (map fst acc) \<Longrightarrow> distinct (map fst (fold (\<lambda>(name, mt) acc. AList.update name mt acc) xs acc))"
  by (induction xs arbitrary: acc) (auto simp: distinct_update)

lemma found_distinct: "distinct (map fst (found_files d w))"
  by (simp add: found_files_def Let_def fold_update_distinct)

lemma found_member: "f \<in> fst ` set found \<Longrightarrow> map_of found f \<noteq> None"
  by (simp add: map_of_eq_None_iff)

text \<open>What the first half of a pass that goes on establishes: the snapshot agrees with
  the table on every found file, and the documents of the found files are untouched.\<close>

lemma removal_established:
  assumes ex0: "existing_tracks (table s) [] = Inr ex0"
    and rm: "remove_missing found (map fst ex0) (s, ex0) = Done (s1, ex)"
    and f: "f \<in> fst ` set found"
  shows "filter (filename_is (Plain (JString f))) (table s1) = filter (filename_is (Plain (JString f))) (table s)"
    and "map_of ex (Plain (JString f)) = last_doc (table s1) (Plain (JString f))"
proof -
  let ?k = "Plain (JString f)"
  let ?Q = "\<lambda>doc. \<forall>n \<in> set (map fst ex0). in_found found n \<or> \<not> filename_is n doc"
  note r = remove_missing_Done[OF rm]
  have inf: "in_found found ?k" using found_member[OF f] by (simp add: in_found_def)
  have "filename_is ?k doc \<Longrightarrow> ?Q doc" for doc
    using inf by (auto simp: filename_is_def)
  then show recs: "filter (filename_is ?k) (table s1) = filter (filename_is ?k) (table s)"
    using r by (auto simp: filter_filter intro: filter_cong)
  have "map_of ex ?k = map_of ex0 ?k" using r inf by simp
  also have "\<dots> = last_doc (table s) ?k"
    using existing_tracks_lookup[OF ex0, of ?k] by (simp split: option.splits)
  also have "\<dots> = last_doc (table s1) ?k"
    using recs by (auto intro: last_doc_cong)
  finally show "map_of ex ?k = last_doc (table s1) ?k" .
qed

lemma last_doc_None_recs: "last_doc docs k = None \<Longrightarrow> filter (filename_is k) docs = []"
  by (simp add: last_doc_def split: if_splits)

text \<open>What the loop body does to the documents of its own file.\<close>

lemma step_recs:
  assumes lk: "map_of ex (Plain (JString f)) = last_doc (table s) (Plain (JString f))"
    and r: "sync_file d w ex xe (f, mt) s = Done s1"
  shows "\<not> is_dirty (map_of ex (Plain (JString f))) mt \<Longrightarrow> s1 = s"
    and "\<not> (validate_json (track_path d f) w = Inr True \<or> \<not> validation d) \<Longrightarrow> s1 = s"
    and "is_dirty (map_of ex (Plain (JString f))) mt \<Longrightarrow>
         validate_json (track_path d f) w = Inr True \<or> \<not> validation d \<Longrightarrow>
         filter (filename_is (Plain (JString f))) (table s1) =
           (if filter (filename_is (Plain (JString f))) (table s) = [] then [file_meta d w xe f mt]
            else map (\<lambda>doc. dict_update doc (file_meta d w xe f mt))
                   (filter (filename_is (Plain (JString f))) (table s)))"
proof -
  let ?k = "Plain (JString f)"
  let ?meta = "file_meta d w xe f mt"
  show "\<not> is_dirty (map_of ex ?k) mt \<Longrightarrow> s1 = s"
    using r by (simp add: sync_file_def)
  show "\<not> (validate_json (track_path d f) w = Inr True \<or> \<not> validation d) \<Longrightarrow> s1 = s"
    using r by (auto simp: sync_file_def Let_def split: if_splits sum.splits)
  assume dirty: "is_dirty (map_of ex ?k) mt"
    and acc: "validate_json (track_path d f) w = Inr True \<or> \<not> validation d"
  from r dirty obtain valid where v: "validate_json (track_path d f) w = Inr valid"
    by (cases "validate_json (track_path d f) w") (auto simp: sync_file_def)
  with acc have ok: "valid \<or> \<not> validation d" by auto
  have fm: "filename_is ?k ?meta" by (simp add: filename_is_def file_meta_filename)
  show "filter (filename_is ?k) (table s1) =
           (if filter (filename_is ?k) (table s) = [] then [?meta]
            else map (\<lambda>doc. dict_update doc ?meta) (filter (filename_is ?k) (table s)))"
  proof (cases "map_of ex ?k")
    case None
    with r dirty v ok have "tinydb_insert ?meta s = Done s1" by (simp add: sync_file_def)
    then have d1: "table s1 = table s @ [?meta]"
      unfolding tinydb_insert_def by (rule storage_write_Done)
    from None lk have "filter (filename_is ?k) (table s) = []" by (simp add: last_doc_None_recs)
    then show ?thesis using d1 fm by simp
  next
    case (Some doc)
    with lk have ld: "last_doc (table s) ?k = Some doc" by simp
    from last_doc_filename[OF ld] have ne: "doc \<noteq> []" by (auto simp: filename_is_def)
    from ld have rne: "filter (filename_is ?k) (table s) \<noteq> []" by (auto simp: last_doc_def split: if_splits)
    from r dirty v ok Some ne have "tinydb_update ?meta ?k s = Done s1" by (simp add: sync_file_def)
    then have d1: "table s1 = map (\<lambda>doc. if filename_is ?k doc then dict_update doc ?meta else doc) (table s)"
      unfolding tinydb_update_def by (rule storage_write_Done)
    show ?thesis using rne unfolding d1 recs_update_same by simp
  qed
qed

lemma loop_recs:
  assumes "distinct (map fst items)" and "(f, mt) \<in> set items"
    and "sync_files d w ex xe items s = Done final"
  shows "\<exists>s0 s1. sync_file d w ex xe (f, mt) s0 = Done s1 \<and>
           filter (filename_is (Plain (JString f))) (table s0) = filter (filename_is (Plain (JString f))) (table s) \<and>
           filter (filename_is (Plain (JString f))) (table final) = filter (filename_is (Plain (JString f))) (table s1)"
  using assms
proof (induction items arbitrary: s)
  case Nil
  then show ?case by simp
next
  case (Cons item items)
  obtain g mt' where item: "item = (g, mt')" by (cases item)
  from Cons.prems(3) obtain s' where st: "sync_file d w ex xe (g, mt') s = Done s'"
    and rest: "sync_files d w ex xe items s' = Done final"
    by (cases "sync_file d w ex xe (g, mt') s") (auto simp: item)
  show ?case
  proof (cases "(f, mt) = item")
    case True
    then have fg: "g = f" "mt' = mt" using item by auto
    have "\<And>f'. f' \<in> fst ` set items \<Longrightarrow> Plain (JString f) \<noteq> Plain (JString f')"
      using Cons.prems(1) item fg by auto
    from recs_loop_other[of items "Plain (JString f)" d w ex xe s', OF this] rest
    have "filter (filename_is (Plain (JString f))) (table final) = filter (filename_is (Plain (JString f))) (table s')" by simp
    with st fg show ?thesis by blast
  next
    case False
    with Cons.prems(2) have mem: "(f, mt) \<in> set items" by auto
    then have "f \<in> fst ` set items" by force
    with Cons.prems(1) item have ne: "Plain (JString f) \<noteq> Plain (JString g)" by auto
    from Cons.prems(1) have d: "distinct (map fst items)" by simp
    from Cons.IH[OF d mem rest] obtain s0 s1 where
      a: "sync_file d w ex xe (f, mt) s0 = Done s1"
      and b: "filter (filename_is (Plain (JString f))) (table s0) = filter (filename_is (Plain (JString f))) (table s')"
      and c: "filter (filename_is (Plain (JString f))) (table final) = filter (filename_is (Plain (JString f))) (table s1)" by blast
    have "filter (filename_is (Plain (JString f))) (table s') = filter (filename_is (Plain (JString f))) (table s)"
      using recs_step_other[OF ne, of d w ex xe mt' s] st by simp
    with a b c show ?thesis by auto
  qed
qed

text \<open>What a pass that returns has done to the documents of a found file.\<close>

lemma pass_records:
  assumes fin: "load_tracks_incrementally w d = Done d'"
    and mem: "(f, mt) \<in> set (found_files d w)"
  shows "records_of f d' =
           (if is_dirty (last_doc (table (db d)) (Plain (JString f))) mt \<and>
               (validate_json (track_path d f) w = Inr True \<or> \<not> validation d)
            then (if records_of f d = [] then [file_meta d w (existing_exports d w) f mt]
                  else map (\<lambda>doc. dict_update doc (file_meta d w (existing_exports d w) f mt)) (records_of f d))
            else records_of f d)"
proof -
  let ?found = "found_files d w"
  let ?xe = "existing_exports d w"
  let ?k = "Plain (JString f)"
  from fin obtain ex0 where ex0: "existing_tracks (table (db d)) [] = Inr ex0"
    by (cases "existing_tracks (table (db d)) []") (auto simp: load_tracks_incrementally_def)
  from fin ex0 obtain s1 ex where rm: "remove_missing ?found (map fst ex0) (db d, ex0) = Done (s1, ex)"
    by (cases "remove_missing ?found (map fst ex0) (db d, ex0)")
       (auto simp: load_tracks_incrementally_def Let_def)
  from fin ex0 rm obtain final where loop: "sync_files d w ex ?xe ?found s1 = Done final"
    and d': "db d' = final"
    by (cases "sync_files d w ex ?xe ?found s1") (auto simp: load_tracks_incrementally_def Let_def)
  have fm: "f \<in> fst ` set ?found" using mem by force
  note est = removal_established[OF ex0 rm fm]
  from loop_recs[OF found_distinct mem loop] obtain s0 s2 where
    st: "sync_file d w ex ?xe (f, mt) s0 = Done s2"
    and r0: "filter (filename_is ?k) (table s0) = filter (filename_is ?k) (table s1)"
    and r2: "filter (filename_is ?k) (table final) = filter (filename_is ?k) (table s2)" by blast
  have lk: "map_of ex ?k = last_doc (table s0) ?k"
    using est(2) r0 by (auto intro: last_doc_cong)
  have tr: "map_of ex ?k = last_doc (table (db d)) ?k"
    using est(2) est(1) by (auto intro: last_doc_cong)
  show ?thesis
    using step_recs(1)[OF lk st] step_recs(2)[OF lk st] step_recs(3)[OF lk st] r0 est(1) r2 d' tr
    by (auto simp: records_of_def)
qed

text \<open>
  C6. The store has counted 999 writes since its last flush and its table is empty; the
  directory holds the new track \<open>a.json\<close> and the new checkpoint \<open>b.chk.json\<close>. The
  first pass inserts the document of \<open>a.json\<close>; this is the thousandth write, the flush
  meets the \<open>Path\<close> stored under \<open>filepath\<close> and raises \<open>TypeError\<close>, which ends the
  pass with the document in the cached table. The second pass, on the same disk,
  inserts the document of \<open>b.chk.json\<close> and ends the same way: it has performed an
  insertion, and the table differs from the one the first pass left. Nothing ever
  reaches the file of the store.
\<close>

theorem incremental_sync_second_pass_inserts:
  "unflushed (db busy_db) = 999 \<and> table (db busy_db) = [] \<and>
   load_tracks_incrementally index_world busy_db =
     Raised (TypeError ''Object of type PosixPath is not JSON serializable'')
       (busy_db\<lparr>db := \<lparr>table =
                 [[(''filename'', Plain (JString ''a.json'')),
                   (''datapoint_count'', Plain (JInt 2)),
                   (''checkpoint'', Plain (JBool False)),
                   (''filepath'', PathObject (''data'', ''a.json'')),
                   (''mtime'', Plain (JInt 10)),
                   (''exports'', Plain (JArray [JString ''json'', JString ''csv'']))]],
                 unflushed = 1000, persisted = []\<rparr>\<rparr>) \<and>
   load_tracks_incrementally index_world (state_of (load_tracks_incrementally index_world busy_db)) =
     Raised (TypeError ''Object of type PosixPath is not JSON serializable'')
       (busy_db\<lparr>db := \<lparr>table =
                 [[(''filename'', Plain (JString ''a.json'')),
                   (''datapoint_count'', Plain (JInt 2)),
                   (''checkpoint'', Plain (JBool False)),
                   (''filepath'', PathObject (''data'', ''a.json'')),
                   (''mtime'', Plain (JInt 10)),
                   (''exports'', Plain (JArray [JString ''json'', JString ''csv'']))],
                  [(''filename'', Plain (JString ''b.chk.json'')),
                   (''datapoint_count'', Plain (JInt 2)),
                   (''checkpoint'', Plain (JBool True)),
                   (''filepath'', PathObject (''data/chk'', ''b.chk.json'')),
                   (''mtime'', Plain (JInt 20))]],
                 unflushed = 1001, persisted = []\<rparr>\<rparr>) \<and>
   table (db (state_of (load_tracks_incrementally index_world
            (state_of (load_tracks_incrementally index_world busy_db)))))
     \<noteq> table (db (state_of (load_tracks_incrementally index_world busy_db)))"
  by (simp add: index_defs)

text \<open>
  C7, as amended. The export derivatives are collected in full on every pass, but they
  are written only inside the branch for files that are new or modified and accepted
  by the validation. After a pass that returns, for every found file: if its stored
  modification time matched, or it was rejected, its documents are exactly those of
  before, so their export sets are not refreshed. If it was new or modified and
  accepted, its document is the freshly built metadata when the table had none, and
  otherwise every document of the file has that metadata merged into it. When
  derivatives with its base name were collected, every such document then carries
  exactly the collected extensions as \<open>exports\<close>. When none were collected and the
  extractors supply no \<open>exports\<close> either, the field is not written: a new document has
  none, and an updated document keeps the export set it had.
\<close>

theorem sync_exports_attached:
  assumes fin: "load_tracks_incrementally w d = Done d'"
    and mem: "(f, mt) \<in> set (found_files d w)"
  shows "(\<not> (is_dirty (last_doc (table (db d)) (Plain (JString f))) mt \<and>
             (validate_json (track_path d f) w = Inr True \<or> \<not> validation d)) \<longrightarrow>
            records_of f d' = records_of f d) \<and>
         (is_dirty (last_doc (table (db d)) (Plain (JString f))) mt \<and>
          (validate_json (track_path d f) w = Inr True \<or> \<not> validation d) \<longrightarrow>
            records_of f d' \<noteq> [] \<and>
            records_of f d' =
              (if records_of f d = [] then [file_meta d w (existing_exports d w) f mt]
               else map (\<lambda>doc. dict_update doc (file_meta d w (existing_exports d w) f mt)) (records_of f d)) \<and>
            (\<forall>exts. map_of (existing_exports d w) (base_name f) = Some exts \<longrightarrow>
               list_all (\<lambda>doc. map_of doc ''exports'' = Some (Plain (JArray (map JString exts))))
                 (records_of f d')) \<and>
            (map_of (existing_exports d w) (base_name f) = None \<and>
             map_of (extract_all d (track_path d f) w) ''exports'' = None \<longrightarrow>
               map (\<lambda>doc. map_of doc ''exports'') (records_of f d') =
                 (if records_of f d = [] then [None]
                  else map (\<lambda>doc. map_of doc ''exports'') (records_of f d))))"
proof -
  let ?meta = "file_meta d w (existing_exports d w) f mt"
  let ?dirty = "is_dirty (last_doc (table (db d)) (Plain (JString f))) mt \<and>
             (validate_json (track_path d f) w = Inr True \<or> \<not> validation d)"
  note pr = pass_records[OF fin mem]
  have clean: "records_of f d' = records_of f d" if "\<not> ?dirty"
    using pr that by auto
  have shape: "records_of f d' =
              (if records_of f d = [] then [?meta]
               else map (\<lambda>doc. dict_update doc ?meta) (records_of f d))" if "?dirty"
    using pr that by auto
  have ne: "records_of f d' \<noteq> []" if "?dirty"
    using shape[OF that] by auto
  have some: "list_all (\<lambda>doc. map_of doc ''exports'' = Some (Plain (JArray (map JString exts))))
                 (records_of f d')"
    if "?dirty" and xe: "map_of (existing_exports d w) (base_name f) = Some exts" for exts
    using shape[OF that(1)] file_meta_exports[OF xe, of d w mt]
    by (auto simp: list_all_iff dict_update_meta)
  have none: "map (\<lambda>doc. map_of doc ''exports'') (records_of f d') =
                 (if records_of f d = [] then [None]
                  else map (\<lambda>doc. map_of doc ''exports'') (records_of f d))"
    if "?dirty" and xe: "map_of (existing_exports d w) (base_name f) = None"
      and ext: "map_of (extract_all d (track_path d f) w) ''exports'' = None"
  proof -
    have "map_of ?meta ''exports'' = None" using file_meta_no_exports[OF xe, of d w mt] ext by simp
    then show ?thesis using shape[OF that(1)] by (auto simp: dict_update_meta)
  qed
  show ?thesis using clean shape ne some none by blast
qed

text \<open>
  The export \<open>a.csv\<close> has the stem of the indexed track \<open>a.json\<close>, whose modification
  time is unchanged: after the pass the document of \<open>a.json\<close> still has no export set.
\<close>

theorem sync_exports_counterexample:
  "returned (load_tracks_incrementally index_world index_db) \<and>
   path_exists (''data'', ''a.csv'') index_world \<and>
   path_stem ''a.csv'' = base_name ''a.json'' \<and>
   records_of ''a.json'' (state_of (load_tracks_incrementally index_world index_db))
     = [[(''filename'', Plain (JString ''a.json'')), (''mtime'', Plain (JInt 10))]] \<and>
   map_of [(''filename'', Plain (JString ''a.json'')), (''mtime'', Plain (JInt 10))] ''exports'' = None"
  by (simp add: index_defs path_exists_def)

theorem sync_exports_attached_witness:
  "(''a.json'', 10) \<in> set (found_files stale_db index_world) \<and>
   is_dirty (last_doc (table (db stale_db)) (Plain (JString ''a.json''))) 10 \<and>
   validate_json (track_path stale_db ''a.json'') index_world = Inr True \<and>
   map_of (existing_exports stale_db index_world) (base_name ''a.json'') = Some [''json'', ''csv''] \<and>
   returned (load_tracks_incrementally index_world stale_db) \<and>
   list_all (\<lambda>doc. map_of doc ''exports'' = Some (Plain (JArray [JString ''json'', JString ''csv''])))
     (records_of ''a.json'' (state_of (load_tracks_incrementally index_world stale_db))) \<and>
   (''a.json'', 10) \<in> set (found_files index_db index_world) \<and>
   \<not> is_dirty (last_doc (table (db index_db)) (Plain (JString ''a.json''))) 10 \<and>
   returned (load_tracks_incrementally index_world index_db) \<and>
   records_of ''a.json'' (state_of (load_tracks_incrementally index_world index_db))
     = records_of ''a.json'' index_db \<and>
   (''b.chk.json'', 20) \<in> set (found_files merged_db index_world) \<and>
   is_dirty (last_doc (table (db merged_db)) (Plain (JString ''b.chk.json''))) 20 \<and>
   validate_json (track_path merged_db ''b.chk.json'') index_world = Inr True \<and>
   map_of (existing_exports merged_db index_world) (base_name ''b.chk.json'') = None \<and>
   map_of (extract_all merged_db (track_path merged_db ''b.chk.json'') index_world) ''exports'' = None \<and>
   returned (load_tracks_incrementally index_world merged_db) \<and>
   map (\<lambda>doc. map_of doc ''exports'')
     (records_of ''b.chk.json'' (state_of (load_tracks_incrementally index_world merged_db)))
     = [Some (Plain (JArray [JString ''gpx'']))]"
proof -
  have ret: "returned (load_tracks_incrementally index_world stale_db)"
    by (simp add: index_defs)
  then obtain d' where run: "load_tracks_incrementally index_world stale_db = Done d'"
    using returned_Done by blast
  have mem: "(''a.json'', 10) \<in> set (found_files stale_db index_world)"
    by (simp add: index_defs)
  have dirty: "is_dirty (last_doc (table (db stale_db)) (Plain (JString ''a.json''))) 10"
    by (simp add: last_doc_def index_defs)
  have valid: "validate_json (track_path stale_db ''a.json'') index_world = Inr True"
    by (simp add: index_defs)
  have xe: "map_of (existing_exports stale_db index_world) (base_name ''a.json'') = Some [''json'', ''csv'']"
    by (simp add: index_defs)
  from sync_exports_attached[OF run mem] dirty valid xe
  have "list_all (\<lambda>doc. map_of doc ''exports'' = Some (Plain (JArray (map JString [''json'', ''csv'']))))
     (records_of ''a.json'' d')" by blast
  then have 1: "list_all (\<lambda>doc. map_of doc ''exports'' = Some (Plain (JArray [JString ''json'', JString ''csv''])))
     (records_of ''a.json'' d')" by simp
  have ret2: "returned (load_tracks_incrementally index_world index_db)"
    by (simp add: index_defs)
  then obtain d'' where run2: "load_tracks_incrementally index_world index_db = Done d''"
    using returned_Done by blast
  have mem2: "(''a.json'', 10) \<in> set (found_files index_db index_world)"
    by (simp add: index_defs)
  have clean: "\<not> is_dirty (last_doc (table (db index_db)) (Plain (JString ''a.json''))) 10"
    by (simp add: last_doc_def index_defs)
  from sync_exports_attached[OF run2 mem2] clean
  have 2: "records_of ''a.json'' d'' = records_of ''a.json'' index_db" by blast
  have ret3: "returned (load_tracks_incrementally index_world merged_db)"
    by (simp add: index_defs)
  then obtain d3 where run3: "load_tracks_incrementally index_world merged_db = Done d3"
    using returned_Done by blast
  have mem3: "(''b.chk.json'', 20) \<in> set (found_files merged_db index_world)"
    by (simp add: index_defs)
  have dirty3: "is_dirty (last_doc (table (db merged_db)) (Plain (JString ''b.chk.json''))) 20"
    by (simp add: last_doc_def index_defs)
  have valid3: "validate_json (track_path merged_db ''b.chk.json'') index_world = Inr True"
    by (simp add: index_defs)
  have xe3: "map_of (existing_exports merged_db index_world) (base_name ''b.chk.json'') = None"
    by (simp add: index_defs)
  have ext3: "map_of (extract_all merged_db (track_path merged_db ''b.chk.json'') index_world) ''exports'' = None"
    by (simp add: index_defs)
  have old3: "map (\<lambda>doc. map_of doc ''exports'') (records_of ''b.chk.json'' merged_db)
     = [Some (Plain (JArray [JString ''gpx'']))]" "records_of ''b.chk.json'' merged_db \<noteq> []"
    by (simp_all add: index_defs)
  from sync_exports_attached[OF run3 mem3] dirty3 valid3 xe3 ext3
  have "map (\<lambda>doc. map_of doc ''exports'') (records_of ''b.chk.json'' d3) =
          (if records_of ''b.chk.json'' merged_db = [] then [None]
           else map (\<lambda>doc. map_of doc ''exports'') (records_of ''b.chk.json'' merged_db))" by blast
  with old3 have 3: "map (\<lambda>doc. map_of doc ''exports'') (records_of ''b.chk.json'' d3)
     = [Some (Plain (JArray [JString ''gpx'']))]" by simp
  from run ret mem dirty valid xe 1 show ?thesis
    using run2 ret2 mem2 clean 2 run3 ret3 mem3 dirty3 valid3 xe3 ext3 3 by simp
qed



end
